theory Spec2Isabelle
  imports Main
begin

section \<open>Chair views of the conference site: listings and CSV exports\<close>

text \<open>
  The views of \<^verbatim>\<open>chair/views.py\<close> read the database through the ORM and return
  either a rendered listing or a CSV attachment. The database is a record of tables
  (lists of rows, in the order the database returns them), every exception the views can
  meet is a value of \<open>error\<close>, and a view returns \<open>error + result\<close>.
  The decorators \<^verbatim>\<open>chair_required\<close> and \<^verbatim>\<open>require_GET\<close> and the HTML templates are
  outside these views: a listing view returns the context it hands to \<^verbatim>\<open>render\<close>.
\<close>

subsection \<open>Data model\<close>

datatype error = Http404 | DoesNotExist | RelatedObjectDoesNotExist | KeyError

record conference =
  c_pk :: int
  short_name :: string

record user =
  u_pk :: int
  email :: string

text \<open>
  A profile row belongs to one user (\<open>p_user\<close> is the one-to-one key). The fields
  \<open>full_name\<close>, \<open>full_name_rus\<close> and \<open>country_display\<close> hold what the methods
  \<^verbatim>\<open>get_full_name()\<close>, \<^verbatim>\<open>get_full_name_rus()\<close> and \<^verbatim>\<open>get_country_display()\<close> of the
  profile return: the views only read these results.
\<close>

record profile =
  p_user :: int
  first_name :: string
  last_name :: string
  full_name :: string
  full_name_rus :: string
  avatar :: string
  country :: string
  country_display :: string
  city :: string
  affiliation :: string
  degree :: string
  role :: string

record authorship =
  a_pk :: int
  a_user :: int
  a_submission :: int

text \<open>
  \<open>created_by\<close> and \<open>stype\<close> are nullable references; \<open>stype\<close> holds the linked
  type's \<^verbatim>\<open>get_language_display()\<close>. \<open>review_manuscript\<close> is the file field's name, empty
  when no file is attached (the field is then false in a condition). \<open>warnings\<close> and
  \<open>status_display\<close> hold the results of \<^verbatim>\<open>warnings()\<close> and \<^verbatim>\<open>get_status_display()\<close>.
\<close>

record submission =
  s_pk :: int
  s_conference :: int
  title :: string
  abstract :: string
  status :: string
  status_display :: string
  warnings :: "string list"
  created_by :: "int option"
  review_manuscript :: string
  stype :: "string option"

record db =
  conferences :: "conference list"
  users :: "user list"
  profiles :: "profile list"
  authorships :: "authorship list"
  submissions :: "submission list"

record request =
  scheme :: string
  host :: string
  GET :: "(string \<times> string) list"

subsection \<open>ORM accesses\<close>

definition get_object_or_404 :: "db \<Rightarrow> int \<Rightarrow> error + conference" where
  "get_object_or_404 d pk =
     (case find (\<lambda>c. c_pk c = pk) (conferences d) of
        None \<Rightarrow> Inl Http404
      | Some c \<Rightarrow> Inr c)"

definition submission_set :: "db \<Rightarrow> conference \<Rightarrow> submission list" where
  "submission_set d conf = filter (\<lambda>s. s_conference s = c_pk conf) (submissions d)"

text \<open>\<^verbatim>\<open>user.profile\<close>: the reverse one-to-one accessor raises when no profile row exists.\<close>

definition user_profile :: "db \<Rightarrow> user \<Rightarrow> error + profile" where
  "user_profile d u =
     (case find (\<lambda>p. p_user p = u_pk u) (profiles d) of
        None \<Rightarrow> Inl RelatedObjectDoesNotExist
      | Some p \<Rightarrow> Inr p)"

text \<open>Following a foreign key to a user (\<^verbatim>\<open>a.user\<close>, \<^verbatim>\<open>sub.created_by\<close>).\<close>

definition get_user :: "db \<Rightarrow> int \<Rightarrow> error + user" where
  "get_user d uid =
     (case find (\<lambda>u. u_pk u = uid) (users d) of
        None \<Rightarrow> Inl DoesNotExist
      | Some u \<Rightarrow> Inr u)"

text \<open>\<^verbatim>\<open>sub.authors.all()\<close>: the authorship rows of a submission.\<close>

definition authors_all :: "db \<Rightarrow> submission \<Rightarrow> authorship list" where
  "authors_all d sub = filter (\<lambda>a. a_submission a = s_pk sub) (authorships d)"

text \<open>\<^verbatim>\<open>a.user.profile\<close> for an authorship row.\<close>

definition author_profile :: "db \<Rightarrow> authorship \<Rightarrow> error + profile" where
  "author_profile d a =
     (case get_user d (a_user a) of
        Inl e \<Rightarrow> Inl e
      | Inr u \<Rightarrow> user_profile d u)"

text \<open>
  \<^verbatim>\<open>user.authorship.filter(submission__conference=conference)\<close>: the user's authorship
  rows, joined to their submission through the foreign key, kept when the submission is
  of the conference.
\<close>

definition authorship_in_conference :: "db \<Rightarrow> conference \<Rightarrow> user \<Rightarrow> authorship list" where
  "authorship_in_conference d conf u =
     filter (\<lambda>a. a_user a = u_pk u \<and>
                 (case find (\<lambda>s. s_pk s = a_submission a) (submissions d) of
                    None \<Rightarrow> False
                  | Some s \<Rightarrow> s_conference s = c_pk conf))
       (authorships d)"

text \<open>
  \<^verbatim>\<open>Profile.objects.filter(user__authorship__submission=sub).values('first_name',
  'last_name', 'user__pk')\<close>: profiles joined to their user and to the user's authorship
  rows, one result per authorship row of the submission.
\<close>

definition auth_prs :: "db \<Rightarrow> submission \<Rightarrow> (string \<times> string \<times> int) list" where
  "auth_prs d sub =
     concat (map (\<lambda>p.
       concat (map (\<lambda>u.
         map (\<lambda>a. (first_name p, last_name p, u_pk u))
           (filter (\<lambda>a. a_user a = u_pk u \<and> a_submission a = s_pk sub) (authorships d)))
         (filter (\<lambda>u. u_pk u = p_user p) (users d))))
       (profiles d))"

subsection \<open>Python helpers\<close>

text \<open>\<^verbatim>\<open>sep.join(xs)\<close>.\<close>

fun join :: "string \<Rightarrow> string list \<Rightarrow> string" where
  "join sep [] = []"
| "join sep [x] = x"
| "join sep (x # y # ys) = x @ sep @ join sep (y # ys)"

text \<open>Evaluating a generator of fallible items from left to right: the first exception wins.\<close>

fun collect :: "('a \<Rightarrow> error + 'b) \<Rightarrow> 'a list \<Rightarrow> error + 'b list" where
  "collect f [] = Inr []"
| "collect f (x # xs) =
     (case f x of
        Inl e \<Rightarrow> Inl e
      | Inr y \<Rightarrow> (case collect f xs of Inl e \<Rightarrow> Inl e | Inr ys \<Rightarrow> Inr (y # ys)))"

text \<open>The decimal digit for a number below ten.\<close>

definition digit_char :: "nat \<Rightarrow> char" where
  "digit_char n = ''0123456789'' ! n"

text \<open>\<^verbatim>\<open>str(n)\<close> for an integer.\<close>

fun str_nat :: "nat \<Rightarrow> string" where
  "str_nat n = (if n < 10 then [digit_char n] else str_nat (n div 10) @ [digit_char (n mod 10)])"

declare str_nat.simps [simp del]

definition str_int :: "int \<Rightarrow> string" where
  "str_int i = (if i < 0 then CHR ''-'' # str_nat (nat (- i)) else str_nat (nat i))"

text \<open>
  A dictionary keyed by users, in insertion order. Model instances are equal when their
  primary keys are, so a second insertion under an equal key replaces the value and keeps
  the first key and its position.
\<close>

fun dict_setitem :: "(user \<times> 'v) list \<Rightarrow> user \<Rightarrow> 'v \<Rightarrow> (user \<times> 'v) list" where
  "dict_setitem [] k v = [(k, v)]"
| "dict_setitem ((k', v') # kvs) k v =
     (if u_pk k' = u_pk k then (k', v) # kvs else (k', v') # dict_setitem kvs k v)"

fun dict_getitem :: "(user \<times> 'v) list \<Rightarrow> user \<Rightarrow> error + 'v" where
  "dict_getitem [] k = Inl KeyError"
| "dict_getitem ((k', v') # kvs) k = (if u_pk k' = u_pk k then Inr v' else dict_getitem kvs k)"

subsection \<open>Filter forms\<close>

text \<open>
  A bound filter form, as the views use it: \<^verbatim>\<open>form.is_valid()\<close> and \<^verbatim>\<open>form.apply(records)\<close>
  (\<open>form_apply\<close> here).
  The views take the form's constructor (from \<^verbatim>\<open>request.GET\<close> and the conference) as a
  parameter.
\<close>

record 'r bound_form =
  is_valid :: bool
  form_apply :: "'r list \<Rightarrow> 'r list"

type_synonym 'r form_class = "(string \<times> string) list \<Rightarrow> conference \<Rightarrow> 'r bound_form"

text \<open>\<^verbatim>\<open>if form.is_valid(): records = form.apply(records)\<close>, the two lines both listings share.\<close>

definition apply_filter :: "'r bound_form \<Rightarrow> 'r list \<Rightarrow> 'r list" where
  "apply_filter form records = (if is_valid form then form_apply form records else records)"

text \<open>
  Modelled from the spec: the classes \<^verbatim>\<open>FilterSubmissionsForm\<close> and \<^verbatim>\<open>FilterUsersForm\<close> of
  \<^verbatim>\<open>chair/forms.py\<close> are not among the sources. The spec describes the filter component
  as one that "interprets query parameters into predicates" from "arbitrary key-value
  pairs", where an invalid specification (schema or type mismatch) is ignored and a valid
  one has its "filter predicate ... applied to narrow the record set". Here \<open>interp\<close>
  reads one key-value pair as a predicate on records, or as \<open>None\<close> on a mismatch; the
  form is valid when every pair is read, and it keeps the records that fulfil every
  predicate.
\<close>

definition filter_form ::
  "(conference \<Rightarrow> string \<times> string \<Rightarrow> ('r \<Rightarrow> bool) option) \<Rightarrow> 'r form_class" where
  "filter_form interp query conf =
     \<lparr> is_valid = list_all (\<lambda>kv. interp conf kv \<noteq> None) query,
       form_apply = (\<lambda>records.
         filter (\<lambda>r. list_all (\<lambda>kv. case interp conf kv of None \<Rightarrow> True | Some p \<Rightarrow> p r) query)
           records) \<rparr>"

subsection \<open>Timestamps and URLs\<close>

text \<open>
  The value of \<^verbatim>\<open>datetime.now()\<close> is a parameter of the export views. A datetime has
  a year from 1 to 9999, a month from 1 to 12, a day from 1 to 31, an hour below 24 and a
  minute below 60.
\<close>

record datetime =
  year :: nat
  month :: nat
  day :: nat
  hour :: nat
  minute :: nat

definition valid_datetime :: "datetime \<Rightarrow> bool" where
  "valid_datetime t \<longleftrightarrow>
     1 \<le> year t \<and> year t \<le> 9999 \<and> 1 \<le> month t \<and> month t \<le> 12 \<and>
     1 \<le> day t \<and> day t \<le> 31 \<and> hour t < 24 \<and> minute t < 60"

definition zero_pad :: "nat \<Rightarrow> nat \<Rightarrow> string" where
  "zero_pad w n = replicate (w - length (str_nat n)) CHR ''0'' @ str_nat n"

text \<open>The directives of \<^verbatim>\<open>strftime\<close> that the views use; any other is left as it is.\<close>

definition directive :: "datetime \<Rightarrow> char \<Rightarrow> string" where
  "directive t c =
     (if c = CHR ''Y'' then zero_pad 4 (year t)
      else if c = CHR ''m'' then zero_pad 2 (month t)
      else if c = CHR ''d'' then zero_pad 2 (day t)
      else if c = CHR ''H'' then zero_pad 2 (hour t)
      else if c = CHR ''M'' then zero_pad 2 (minute t)
      else [CHR ''%'', c])"

fun strftime :: "datetime \<Rightarrow> string \<Rightarrow> string" where
  "strftime t [] = []"
| "strftime t [c] = [c]"
| "strftime t (c # c' # cs) =
     (if c = CHR ''%'' then directive t c' @ strftime t cs else c # strftime t (c' # cs))"

text \<open>
  The URL configuration is not among the sources. The route
  \<^verbatim>\<open>submissions:download-manuscript\<close> takes one argument, and \<^verbatim>\<open>reverse\<close> puts the
  argument's \<^verbatim>\<open>str\<close> into the route's path: the text of the path before and after the
  argument is a parameter.
\<close>

record url_pattern =
  pat_prefix :: string
  pat_suffix :: string

definition reverse_download_manuscript :: "url_pattern \<Rightarrow> int \<Rightarrow> string" where
  "reverse_download_manuscript urls pk = pat_prefix urls @ str_int pk @ pat_suffix urls"

text \<open>\<^verbatim>\<open>request.build_absolute_uri(location)\<close> for a path: scheme and host before it.\<close>

definition build_absolute_uri :: "request \<Rightarrow> string \<Rightarrow> string" where
  "build_absolute_uri request location = scheme request @ ''://'' @ host request @ location"

subsection \<open>CSV exports\<close>

text \<open>
  The response of an export: its content type, its \<^verbatim>\<open>Content-Disposition\<close> header and
  the rows handed to \<^verbatim>\<open>csv.writer.writerow\<close>, in order. A cell is the Python value
  written, an integer or a string.
\<close>

datatype cell = IntCell int | StrCell string

record response =
  content_type :: string
  content_disposition :: string
  rows :: "cell list list"

text \<open>
  The loop \<^verbatim>\<open>for x in xs: row = ...; writer.writerow(row); number += 1\<close>, with the
  counter and the rows written so far as its state.
\<close>

fun write_rows ::
  "(int \<Rightarrow> 'a \<Rightarrow> error + cell list) \<Rightarrow> 'a list \<Rightarrow> int \<Rightarrow> cell list list \<Rightarrow> error + cell list list" where
  "write_rows body [] number written = Inr written"
| "write_rows body (x # xs) number written =
     (case body number x of
        Inl e \<Rightarrow> Inl e
      | Inr row \<Rightarrow> write_rows body xs (number + 1) (written @ [row]))"

definition attachment :: "string \<Rightarrow> string \<Rightarrow> string" where
  "attachment entity timestamp =
     ''attachment; filename='' @ [CHR 0x22] @ entity @ ''-'' @ timestamp @ ''.csv'' @ [CHR 0x22]"

definition submissions_header :: "cell list" where
  "submissions_header =
     [StrCell ''#'', StrCell ''ID'', StrCell ''TITLE'', StrCell ''AUTHORS'', StrCell ''COUNTRY'',
      StrCell ''CORR_AUTHOR'', StrCell ''CORR_EMAIL'', StrCell ''LANGUAGE'', StrCell ''LINK'']"

text \<open>
  The body of the loop of \<^verbatim>\<open>get_submissions_csv\<close>. The iteration order of a Python set
  of strings is not fixed by the language: \<open>set_iter\<close>, a parameter, gives the order in
  which \<^verbatim>\<open>set(labels)\<close> is iterated.
\<close>

definition submission_row ::
  "(string list \<Rightarrow> string list) \<Rightarrow> url_pattern \<Rightarrow> db \<Rightarrow> request \<Rightarrow> int \<Rightarrow> submission
     \<Rightarrow> error + cell list" where
  "submission_row set_iter urls d request number sub =
     (case collect (\<lambda>a. case author_profile d a of Inl e \<Rightarrow> Inl e | Inr p \<Rightarrow> Inr (full_name p))
             (authors_all d sub) of
        Inl e \<Rightarrow> Inl e
      | Inr names \<Rightarrow>
     (case collect (\<lambda>a. case author_profile d a of Inl e \<Rightarrow> Inl e | Inr p \<Rightarrow> Inr (country_display p))
             (authors_all d sub) of
        Inl e \<Rightarrow> Inl e
      | Inr labels \<Rightarrow>
     (case (case created_by sub of
              None \<Rightarrow> Inr None
            | Some uid \<Rightarrow> (case get_user d uid of Inl e \<Rightarrow> Inl e | Inr u \<Rightarrow> Inr (Some u))) of
        Inl e \<Rightarrow> Inl e
      | Inr owner \<Rightarrow>
     (case (case owner of
              None \<Rightarrow> Inr []
            | Some u \<Rightarrow> (case user_profile d u of Inl e \<Rightarrow> Inl e | Inr p \<Rightarrow> Inr (full_name p))) of
        Inl e \<Rightarrow> Inl e
      | Inr corr_author \<Rightarrow>
          let authors = join '', '' names;
              countries = join '', '' (set_iter labels);
              corr_email = (case owner of None \<Rightarrow> [] | Some u \<Rightarrow> email u);
              link = (if review_manuscript sub \<noteq> []
                      then build_absolute_uri request (reverse_download_manuscript urls (s_pk sub))
                      else []);
              stype = (case stype sub of None \<Rightarrow> [] | Some l \<Rightarrow> l)
          in Inr [IntCell number, IntCell (s_pk sub), StrCell (title sub), StrCell authors,
                  StrCell countries, StrCell corr_author, StrCell corr_email, StrCell stype,
                  StrCell link]))))"

definition get_submissions_csv ::
  "(string list \<Rightarrow> string list) \<Rightarrow> url_pattern \<Rightarrow> datetime \<Rightarrow> db \<Rightarrow> request \<Rightarrow> int
     \<Rightarrow> error + response" where
  "get_submissions_csv set_iter urls now d request pk =
     (case get_object_or_404 d pk of
        Inl e \<Rightarrow> Inl e
      | Inr conf \<Rightarrow>
          let subs = sort_key s_pk (submission_set d conf);
              timestamp = strftime now ''%Y%m%d_%H%M''
          in case write_rows (submission_row set_iter urls d request) subs 1 [submissions_header] of
               Inl e \<Rightarrow> Inl e
             | Inr written \<Rightarrow>
                 Inr \<lparr> content_type = ''text/csv'',
                       content_disposition = attachment ''submissions'' timestamp,
                       rows = written \<rparr>)"

definition authors_header :: "cell list" where
  "authors_header =
     [StrCell ''#'', StrCell ''ID'', StrCell ''FULL_NAME'', StrCell ''FULL_NAME_RUS'',
      StrCell ''DEGREE'', StrCell ''COUNTRY'', StrCell ''CITY'', StrCell ''AFFILIATION'',
      StrCell ''ROLE'', StrCell ''EMAIL'']"

definition author_row :: "db \<Rightarrow> int \<Rightarrow> user \<Rightarrow> error + cell list" where
  "author_row d number u =
     (case user_profile d u of
        Inl e \<Rightarrow> Inl e
      | Inr prof \<Rightarrow>
          Inr [IntCell number, IntCell (u_pk u), StrCell (full_name prof),
               StrCell (full_name_rus prof), StrCell (degree prof), StrCell (country_display prof),
               StrCell (city prof), StrCell (affiliation prof), StrCell (role prof),
               StrCell (email u)])"

text \<open>
  \<^verbatim>\<open>is_author\<close> of \<^verbatim>\<open>conferences/helpers.py\<close> is not among the sources: the predicate on
  a conference and a user is a parameter.
\<close>

definition get_authors_csv ::
  "(conference \<Rightarrow> user \<Rightarrow> bool) \<Rightarrow> datetime \<Rightarrow> db \<Rightarrow> request \<Rightarrow> int \<Rightarrow> error + response" where
  "get_authors_csv is_author now d request pk =
     (case get_object_or_404 d pk of
        Inl e \<Rightarrow> Inl e
      | Inr conf \<Rightarrow>
          let us = filter (is_author conf) (sort_key u_pk (users d));
              timestamp = strftime now ''%Y%m%d_%H%M''
          in case write_rows (author_row d) us 1 [authors_header] of
               Inl e \<Rightarrow> Inl e
             | Inr written \<Rightarrow>
                 Inr \<lparr> content_type = ''text/csv'',
                       content_disposition = attachment ''authors'' timestamp,
                       rows = written \<rparr>)"

subsection \<open>Listings\<close>

record author_item =
  ai_name :: string
  ai_user_pk :: int

record submission_item =
  si_object :: submission
  si_warnings :: "string list"
  si_title :: string
  si_abstract :: string
  si_authors :: "author_item list"
  si_authors_display :: string
  si_pk :: int
  si_status :: string
  si_status_display :: string

record submissions_context =
  sc_conference :: conference
  sc_submissions :: "submission_item list"
  sc_filter_form :: "submission bound_form"

text \<open>
  The dictionary \<^verbatim>\<open>auth_prs\<close> of the view maps each listed submission to its query of
  profiles; the query reads the submission's key only, so \<^verbatim>\<open>auth_prs[sub]\<close> is the query
  for \<open>sub\<close>.
\<close>

definition submission_shape :: "db \<Rightarrow> submission \<Rightarrow> submission_item" where
  "submission_shape d sub =
     \<lparr> si_object = sub,
       si_warnings = warnings sub,
       si_title = title sub,
       si_abstract = abstract sub,
       si_authors = map (\<lambda>(fname, lname, upk). \<lparr> ai_name = fname @ '' '' @ lname, ai_user_pk = upk \<rparr>)
                      (auth_prs d sub),
       si_authors_display = join '', '' (map (\<lambda>(fname, lname, upk). fname @ '' '' @ lname) (auth_prs d sub)),
       si_pk = s_pk sub,
       si_status = status sub,
       si_status_display = status_display sub \<rparr>"

definition submissions_list ::
  "submission form_class \<Rightarrow> db \<Rightarrow> request \<Rightarrow> int \<Rightarrow> error + submissions_context" where
  "submissions_list FilterSubmissionsForm d request pk =
     (case get_object_or_404 d pk of
        Inl e \<Rightarrow> Inl e
      | Inr conf \<Rightarrow>
          let form = FilterSubmissionsForm (GET request) conf;
              subs0 = submission_set d conf;
              subs1 = apply_filter form subs0
          in Inr \<lparr> sc_conference = conf,
                   sc_submissions = map (submission_shape d) subs1,
                   sc_filter_form = form \<rparr>)"

record user_item =
  ui_pk :: int
  ui_name :: string
  ui_name_rus :: string
  ui_avatar :: string
  ui_country :: string
  ui_city :: string
  ui_affiliation :: string
  ui_degree :: string
  ui_role :: string
  num_submissions :: int
  is_participant :: bool

record users_context =
  uc_conference :: conference
  uc_users :: "user_item list"
  uc_filter_form :: "user bound_form"

text \<open>\<^verbatim>\<open>{user: user.profile for user in users}\<close>, from the dictionary built so far.\<close>

fun build_profiles ::
  "db \<Rightarrow> user list \<Rightarrow> (user \<times> profile) list \<Rightarrow> error + (user \<times> profile) list" where
  "build_profiles d [] dict = Inr dict"
| "build_profiles d (u # us) dict =
     (case user_profile d u of
        Inl e \<Rightarrow> Inl e
      | Inr p \<Rightarrow> build_profiles d us (dict_setitem dict u p))"

text \<open>\<^verbatim>\<open>{user: list(user.authorship.filter(...)) for user in users}\<close>.\<close>

fun build_authors ::
  "db \<Rightarrow> conference \<Rightarrow> user list \<Rightarrow> (user \<times> authorship list) list
     \<Rightarrow> (user \<times> authorship list) list" where
  "build_authors d conf [] dict = dict"
| "build_authors d conf (u # us) dict =
     build_authors d conf us (dict_setitem dict u (authorship_in_conference d conf u))"

definition user_shape ::
  "(user \<times> authorship list) list \<Rightarrow> user \<times> profile \<Rightarrow> error + user_item" where
  "user_shape authors item =
     (case item of (u, prof) \<Rightarrow>
        (case dict_getitem authors u of
           Inl e \<Rightarrow> Inl e
         | Inr auths \<Rightarrow>
             Inr \<lparr> ui_pk = u_pk u,
                   ui_name = full_name prof,
                   ui_name_rus = full_name_rus prof,
                   ui_avatar = avatar prof,
                   ui_country = country prof,
                   ui_city = city prof,
                   ui_affiliation = affiliation prof,
                   ui_degree = degree prof,
                   ui_role = role prof,
                   num_submissions = int (length auths),
                   is_participant = (int (length auths) > 0) \<rparr>))"

definition users_list ::
  "user form_class \<Rightarrow> db \<Rightarrow> request \<Rightarrow> int \<Rightarrow> error + users_context" where
  "users_list FilterUsersForm d request pk =
     (case get_object_or_404 d pk of
        Inl e \<Rightarrow> Inl e
      | Inr conf \<Rightarrow>
          let us0 = users d;
              form = FilterUsersForm (GET request) conf;
              us1 = apply_filter form us0
          in case build_profiles d us1 [] of
               Inl e \<Rightarrow> Inl e
             | Inr profs \<Rightarrow>
                 let authors = build_authors d conf us1 []
                 in case collect (user_shape authors) profs of
                      Inl e \<Rightarrow> Inl e
                    | Inr ups \<Rightarrow>
                        Inr \<lparr> uc_conference = conf, uc_users = ups, uc_filter_form = form \<rparr>)"

subsection \<open>Databases the exports can read\<close>

text \<open>
  The views follow \<^verbatim>\<open>.user\<close> and \<^verbatim>\<open>.profile\<close> with no guard. A user key is
  \<open>profiled\<close> when the user row and its profile row exist; a submission is
  \<open>exportable\<close> when the users of its authorship rows and its creator, if it has one, are
  profiled.
\<close>

definition profiled :: "db \<Rightarrow> int \<Rightarrow> bool" where
  "profiled d uid =
     (case get_user d uid of
        Inl e \<Rightarrow> False
      | Inr u \<Rightarrow> (case user_profile d u of Inl e \<Rightarrow> False | Inr p \<Rightarrow> True))"

definition exportable :: "db \<Rightarrow> submission \<Rightarrow> bool" where
  "exportable d sub \<longleftrightarrow>
     list_all (\<lambda>a. profiled d (a_user a)) (authors_all d sub) \<and>
     (case created_by sub of None \<Rightarrow> True | Some uid \<Rightarrow> profiled d uid)"

text \<open>The country labels of a submission's authors, one per authorship row, repeats kept.\<close>

definition country_labels :: "db \<Rightarrow> submission \<Rightarrow> string list" where
  "country_labels d sub =
     concat (map (\<lambda>a. case author_profile d a of Inl e \<Rightarrow> [] | Inr p \<Rightarrow> [country_display p])
       (authors_all d sub))"

subsection \<open>A small database\<close>

text \<open>
  Conference 1 has the submissions 5 and 3, fetched in that order. Submission 5 has two
  authors from the same country, a creator and a manuscript; submission 3 has one author
  and neither creator nor manuscript. User 3 has a profile and no authorship.
\<close>

definition demo_conf :: conference where
  "demo_conf = \<lparr> c_pk = 1, short_name = ''DCCN'' \<rparr>"

definition demo_user :: "int \<Rightarrow> string \<Rightarrow> user" where
  "demo_user k mail = \<lparr> u_pk = k, email = mail \<rparr>"

definition demo_profile :: "int \<Rightarrow> string \<Rightarrow> string \<Rightarrow> string \<Rightarrow> profile" where
  "demo_profile k fname lname label =
     \<lparr> p_user = k, first_name = fname, last_name = lname, full_name = fname @ '' '' @ lname,
       full_name_rus = lname @ '' '' @ fname, avatar = [], country = label,
       country_display = label, city = ''Moscow'', affiliation = ''ICS'', degree = ''PhD'',
       role = ''Researcher'' \<rparr>"

definition demo_submission :: "int \<Rightarrow> string \<Rightarrow> int option \<Rightarrow> string \<Rightarrow> string option \<Rightarrow> submission" where
  "demo_submission k t owner file lang =
     \<lparr> s_pk = k, s_conference = 1, title = t, abstract = [], status = ''SUBMIT'',
       status_display = ''Draft'', warnings = [], created_by = owner,
       review_manuscript = file, stype = lang \<rparr>"

definition demo_db :: db where
  "demo_db =
     \<lparr> conferences = [demo_conf],
       users = [demo_user 2 ''bob@example.org'', demo_user 1 ''ann@example.org'',
                demo_user 3 ''eve@example.org''],
       profiles = [demo_profile 1 ''Ann'' ''Lee'' ''Russia'', demo_profile 2 ''Bob'' ''Ray'' ''Russia'',
                   demo_profile 3 ''Eve'' ''Fox'' ''Italy''],
       authorships = [\<lparr> a_pk = 1, a_user = 1, a_submission = 5 \<rparr>,
                      \<lparr> a_pk = 2, a_user = 2, a_submission = 5 \<rparr>,
                      \<lparr> a_pk = 3, a_user = 1, a_submission = 3 \<rparr>],
       submissions = [demo_submission 5 ''Queues'' (Some 1) ''q.pdf'' (Some ''English''),
                      demo_submission 3 ''Graphs'' None [] None] \<rparr>"

definition demo_request :: request where
  "demo_request = \<lparr> scheme = ''https'', host = ''example.org'', GET = [] \<rparr>"

definition demo_urls :: url_pattern where
  "demo_urls = \<lparr> pat_prefix = ''/submissions/'', pat_suffix = ''/manuscript/'' \<rparr>"

definition demo_now :: datetime where
  "demo_now = \<lparr> year = 2019, month = 3, day = 7, hour = 9, minute = 5 \<rparr>"

text \<open>The same database with user 4, an author of submission 3 who has no profile row.\<close>

definition orphan_db :: db where
  "orphan_db =
     demo_db \<lparr> users := users demo_db @ [demo_user 4 ''dan@example.org''],
               authorships := authorships demo_db @ [\<lparr> a_pk = 4, a_user = 4, a_submission = 3 \<rparr>] \<rparr>"

text \<open>
  What the language does fix about iterating \<^verbatim>\<open>set(xs)\<close>: every element of \<open>xs\<close>
  comes once.
\<close>

definition set_order :: "(string list \<Rightarrow> string list) \<Rightarrow> bool" where
  "set_order set_iter \<longleftrightarrow> (\<forall>xs. distinct (set_iter xs) \<and> set (set_iter xs) = set xs)"

text \<open>
  A user has a profile when \<^verbatim>\<open>user.profile\<close> does not raise. \<open>has_authorship\<close> is one
  possible \<^verbatim>\<open>is_author\<close>, used in the examples: the user has an authorship row in the
  conference.
\<close>

definition has_profile :: "db \<Rightarrow> user \<Rightarrow> bool" where
  "has_profile d u = (case user_profile d u of Inl e \<Rightarrow> False | Inr p \<Rightarrow> True)"

definition has_authorship :: "db \<Rightarrow> conference \<Rightarrow> user \<Rightarrow> bool" where
  "has_authorship d conf u \<longleftrightarrow> authorship_in_conference d conf u \<noteq> []"

text \<open>The shape \<^verbatim>\<open>YYYYMMDD_HHMM\<close>: eight digits, an underscore, four digits.\<close>

definition is_digit :: "char \<Rightarrow> bool" where
  "is_digit c \<longleftrightarrow> c \<in> set ''0123456789''"

definition timestamp_form :: "string \<Rightarrow> bool" where
  "timestamp_form ts \<longleftrightarrow>
     length ts = 13 \<and> list_all is_digit (take 8 ts) \<and> ts ! 8 = CHR ''_'' \<and>
     list_all is_digit (drop 9 ts)"

text \<open>
  An authorship row of the user with key \<open>upk\<close> whose submission belongs to the
  conference.
\<close>

definition scoped_authorship :: "db \<Rightarrow> conference \<Rightarrow> int \<Rightarrow> authorship \<Rightarrow> bool" where
  "scoped_authorship d conf upk a \<longleftrightarrow>
     a_user a = upk \<and>
     list_ex (\<lambda>s. s_pk s = a_submission a \<and> s_conference s = c_pk conf) (submissions d)"

text \<open>A form class for the examples: it reads the key \<open>pk\<close> only, which keeps the user with that key.\<close>

definition demo_interp :: "conference \<Rightarrow> string \<times> string \<Rightarrow> (user \<Rightarrow> bool) option" where
  "demo_interp conf kv = (if fst kv = ''pk'' \<and> snd kv \<noteq> [] then Some (\<lambda>u. str_int (u_pk u) = snd kv) else None)"

text \<open>A request whose query no example form can read.\<close>

definition bad_request :: request where
  "bad_request = demo_request \<lparr> GET := [(''status'', ''??'')] \<rparr>"

definition demo_interp_sub :: "conference \<Rightarrow> string \<times> string \<Rightarrow> (submission \<Rightarrow> bool) option" where
  "demo_interp_sub conf kv =
     (if fst kv = ''term'' then Some (\<lambda>s. title s = snd kv) else None)"

section \<open>Properties\<close>

subsection \<open>The writing loop and the submissions export\<close>

lemma write_rows_Inr:
  "write_rows body xs n w = Inr res \<longleftrightarrow>
     (\<exists>rs. res = w @ rs \<and> length rs = length xs \<and>
           (\<forall>i<length xs. body (n + int i) (xs ! i) = Inr (rs ! i)))"
proof (induction xs arbitrary: n w)
  case Nil
  show ?case by auto
next
  case (Cons x xs)
  show ?case
  proof (cases "body n x")
    case (Inl e)
    then show ?thesis by (auto simp: All_less_Suc2)
  next
    case (Inr row)
    have "(\<exists>rs. res = w @ rs \<and> length rs = Suc (length xs) \<and>
            (\<forall>i<Suc (length xs). body (n + int i) ((x # xs) ! i) = Inr (rs ! i)))
        \<longleftrightarrow> (\<exists>rs'. res = (w @ [row]) @ rs' \<and> length rs' = length xs \<and>
            (\<forall>i<length xs. body (n + 1 + int i) (xs ! i) = Inr (rs' ! i)))"
      (is "?L \<longleftrightarrow> ?R")
    proof
      assume ?L
      then obtain rs where rs: "res = w @ rs" "length rs = Suc (length xs)"
        "\<forall>i<Suc (length xs). body (n + int i) ((x # xs) ! i) = Inr (rs ! i)" by blast
      then obtain r rs' where r: "rs = r # rs'" by (cases rs) auto
      with rs(3) Inr have "r = row" by (auto simp: All_less_Suc2)
      with rs r show ?R by (auto simp: All_less_Suc2 add.assoc)
    next
      assume ?R
      then obtain rs' where "res = (w @ [row]) @ rs'" "length rs' = length xs"
        "\<forall>i<length xs. body (n + 1 + int i) (xs ! i) = Inr (rs' ! i)" by blast
      then show ?L using Inr
        by (intro exI[of _ "row # rs'"]) (auto simp: All_less_Suc2 add.assoc)
    qed
    with Inr Cons.IH[of "n + 1" "w @ [row]"] show ?thesis by simp
  qed
qed

lemma write_rows_total:
  assumes "\<And>n x. x \<in> set xs \<Longrightarrow> \<exists>r. body n x = Inr r"
  shows "\<exists>rs. write_rows body xs n w = Inr (w @ rs) \<and> length rs = length xs \<and>
           (\<forall>i<length xs. body (n + int i) (xs ! i) = Inr (rs ! i))"
proof -
  define rs where "rs = map (\<lambda>i. projr (body (n + int i) (xs ! i))) [0..<length xs]"
  have len: "length rs = length xs" by (simp add: rs_def)
  have each: "body (n + int i) (xs ! i) = Inr (rs ! i)" if "i < length xs" for i
  proof -
    from that have "xs ! i \<in> set xs" by simp
    from assms[OF this, of "n + int i"] obtain r where "body (n + int i) (xs ! i) = Inr r" ..
    with that show ?thesis by (simp add: rs_def)
  qed
  from len each have "write_rows body xs n w = Inr (w @ rs)"
    unfolding write_rows_Inr by blast
  with len each show ?thesis by blast
qed

lemma collect_profiled:
  "list_all (\<lambda>a. profiled d (a_user a)) as \<Longrightarrow>
   collect (\<lambda>a. case author_profile d a of Inl e \<Rightarrow> Inl e | Inr p \<Rightarrow> Inr (f p)) as =
     Inr (concat (map (\<lambda>a. case author_profile d a of Inl e \<Rightarrow> [] | Inr p \<Rightarrow> [f p]) as))"
  by (induction as)
     (auto simp: profiled_def author_profile_def split: sum.splits)

lemma submission_row_exportable:
  assumes "exportable d sub"
  shows "\<exists>names corr_author corr_email.
     submission_row si urls d rq n sub =
       Inr [IntCell n, IntCell (s_pk sub), StrCell (title sub), StrCell names,
            StrCell (join '', '' (si (country_labels d sub))), StrCell corr_author,
            StrCell corr_email, StrCell (case stype sub of None \<Rightarrow> [] | Some l \<Rightarrow> l),
            StrCell (if review_manuscript sub \<noteq> []
                     then scheme rq @ ''://'' @ host rq @ pat_prefix urls @ str_int (s_pk sub) @ pat_suffix urls
                     else [])] \<and>
     (created_by sub = None \<longrightarrow> corr_author = [] \<and> corr_email = [])"
proof -
  from assms have as: "list_all (\<lambda>a. profiled d (a_user a)) (authors_all d sub)"
    and ow: "case created_by sub of None \<Rightarrow> True | Some uid \<Rightarrow> profiled d uid"
    by (simp_all add: exportable_def)
  show ?thesis
  proof (cases "created_by sub")
    case None
    then show ?thesis
      by (simp add: submission_row_def collect_profiled[OF as] country_labels_def
          build_absolute_uri_def reverse_download_manuscript_def)
  next
    case (Some uid)
    with ow have "profiled d uid" by simp
    then obtain u p where "get_user d uid = Inr u" "user_profile d u = Inr p"
      by (auto simp: profiled_def split: sum.splits)
    with Some show ?thesis
      by (simp add: submission_row_def collect_profiled[OF as] country_labels_def
          build_absolute_uri_def reverse_download_manuscript_def)
  qed
qed

lemma get_submissions_csv_exportable:
  assumes "get_object_or_404 d pk = Inr conf"
    and "list_all (exportable d) (submission_set d conf)"
  shows "\<exists>rs. get_submissions_csv si urls now d rq pk =
           Inr \<lparr> content_type = ''text/csv'',
                 content_disposition = attachment ''submissions'' (strftime now ''%Y%m%d_%H%M''),
                 rows = submissions_header # rs \<rparr> \<and>
         length rs = length (submission_set d conf) \<and>
         (\<forall>i<length rs. submission_row si urls d rq (1 + int i)
                           (sort_key s_pk (submission_set d conf) ! i) = Inr (rs ! i))"
proof -
  let ?subs = "sort_key s_pk (submission_set d conf)"
  have "\<exists>r. submission_row si urls d rq n x = Inr r" if "x \<in> set ?subs" for n x
  proof -
    from that assms(2) have "exportable d x" by (simp add: list_all_iff)
    from submission_row_exportable[OF this] show ?thesis by blast
  qed
  from write_rows_total[of ?subs "submission_row si urls d rq" 1 "[submissions_header]", OF this]
  obtain rs where "write_rows (submission_row si urls d rq) ?subs 1 [submissions_header] =
      Inr ([submissions_header] @ rs)" "length rs = length ?subs"
    "\<forall>i<length ?subs. submission_row si urls d rq (1 + int i) (?subs ! i) = Inr (rs ! i)"
    by blast
  with assms(1) show ?thesis
    by (intro exI[of _ rs]) (simp add: get_submissions_csv_def Let_def)
qed

lemma map_insort_key: "map f (insort_key f x xs) = insort (f x) (map f xs)"
  by (induction xs) simp_all

lemma map_sort_key: "map f (sort_key f xs) = sort (map f xs)"
  by (induction xs) (simp_all add: map_insort_key)

lemmas demo_defs = demo_db_def demo_conf_def demo_user_def demo_profile_def demo_submission_def
  demo_request_def demo_urls_def demo_now_def

lemma demo_conf_found: "get_object_or_404 demo_db 1 = Inr demo_conf"
  by (simp add: get_object_or_404_def demo_defs)


lemma demo_exportable: "list_all (exportable demo_db) (submission_set demo_db demo_conf)"
  by (simp add: exportable_def profiled_def submission_set_def authors_all_def get_user_def
      user_profile_def demo_defs)

lemma get_submissions_csv_cells:
  assumes "get_object_or_404 d pk = Inr conf"
    and "list_all (exportable d) (submission_set d conf)"
  shows "\<exists>rs. get_submissions_csv si urls now d rq pk =
           Inr \<lparr> content_type = ''text/csv'',
                 content_disposition = attachment ''submissions'' (strftime now ''%Y%m%d_%H%M''),
                 rows = submissions_header # rs \<rparr> \<and>
         length rs = length (submission_set d conf) \<and>
         (\<forall>i<length rs. \<exists>names corr_author corr_email.
            rs ! i =
              [IntCell (1 + int i), IntCell (s_pk (sort_key s_pk (submission_set d conf) ! i)),
               StrCell (title (sort_key s_pk (submission_set d conf) ! i)), StrCell names,
               StrCell (join '', '' (si (country_labels d (sort_key s_pk (submission_set d conf) ! i)))),
               StrCell corr_author, StrCell corr_email,
               StrCell (case stype (sort_key s_pk (submission_set d conf) ! i) of None \<Rightarrow> [] | Some l \<Rightarrow> l),
               StrCell (if review_manuscript (sort_key s_pk (submission_set d conf) ! i) \<noteq> []
                        then scheme rq @ ''://'' @ host rq @ pat_prefix urls @
                             str_int (s_pk (sort_key s_pk (submission_set d conf) ! i)) @ pat_suffix urls
                        else [])] \<and>
            (created_by (sort_key s_pk (submission_set d conf) ! i) = None \<longrightarrow>
               corr_author = [] \<and> corr_email = []))"
proof -
  let ?subs = "sort_key s_pk (submission_set d conf)"
  from get_submissions_csv_exportable[OF assms, of si urls now rq]
  obtain rs where resp: "get_submissions_csv si urls now d rq pk =
        Inr \<lparr> content_type = ''text/csv'',
              content_disposition = attachment ''submissions'' (strftime now ''%Y%m%d_%H%M''),
              rows = submissions_header # rs \<rparr>"
    and len: "length rs = length (submission_set d conf)"
    and each: "\<forall>i<length rs. submission_row si urls d rq (1 + int i) (?subs ! i) = Inr (rs ! i)"
    by blast
  have "\<exists>names corr_author corr_email.
            rs ! i =
              [IntCell (1 + int i), IntCell (s_pk (?subs ! i)),
               StrCell (title (?subs ! i)), StrCell names,
               StrCell (join '', '' (si (country_labels d (?subs ! i)))),
               StrCell corr_author, StrCell corr_email,
               StrCell (case stype (?subs ! i) of None \<Rightarrow> [] | Some l \<Rightarrow> l),
               StrCell (if review_manuscript (?subs ! i) \<noteq> []
                        then scheme rq @ ''://'' @ host rq @ pat_prefix urls @
                             str_int (s_pk (?subs ! i)) @ pat_suffix urls
                        else [])] \<and>
            (created_by (?subs ! i) = None \<longrightarrow> corr_author = [] \<and> corr_email = [])"
    if "i < length rs" for i
  proof -
    from that len have "?subs ! i \<in> set (submission_set d conf)"
      by (metis length_sort nth_mem set_sort)
    with assms(2) have "exportable d (?subs ! i)" by (simp add: list_all_iff)
    from submission_row_exportable[OF this, of si urls rq "1 + int i"] each that
    show ?thesis by auto
  qed
  with resp len show ?thesis by blast
qed

lemma demo_sorted:
  "sort_key s_pk (submission_set demo_db demo_conf) =
     [demo_submission 3 ''Graphs'' None [] None,
      demo_submission 5 ''Queues'' (Some 1) ''q.pdf'' (Some ''English'')]"
  by (simp add: submission_set_def demo_defs)

lemma set_order_remdups: "set_order remdups"
  by (simp add: set_order_def)

subsection \<open>The loop of the authors export\<close>

lemma write_rows_Inl:
  "write_rows body xs n w = Inl e \<Longrightarrow> \<exists>k x. x \<in> set xs \<and> body k x = Inl e"
proof (induction xs arbitrary: n w)
  case Nil
  then show ?case by simp
next
  case (Cons x xs)
  show ?case
  proof (cases "body n x")
    case (Inl e')
    with Cons.prems show ?thesis by auto
  next
    case (Inr row)
    with Cons.prems have "write_rows body xs (n + 1) (w @ [row]) = Inl e" by simp
    from Cons.IH[OF this] show ?thesis by auto
  qed
qed

lemma author_row_Inl: "author_row d n u = Inl e \<Longrightarrow> e = RelatedObjectDoesNotExist \<and> \<not> has_profile d u"
  by (auto simp: author_row_def user_profile_def has_profile_def split: option.splits)

lemma author_row_Inr:
  "has_profile d u \<Longrightarrow> \<exists>prof. user_profile d u = Inr prof \<and>
     author_row d n u =
       Inr [IntCell n, IntCell (u_pk u), StrCell (full_name prof),
            StrCell (full_name_rus prof), StrCell (degree prof), StrCell (country_display prof),
            StrCell (city prof), StrCell (affiliation prof), StrCell (role prof),
            StrCell (email u)]"
  by (auto simp: author_row_def has_profile_def split: sum.splits)

lemma get_authors_csv_cells:
  assumes "get_object_or_404 d pk = Inr conf"
    and "list_all (has_profile d) (filter (is_author conf) (users d))"
  shows "\<exists>rs. get_authors_csv is_author now d rq pk =
           Inr \<lparr> content_type = ''text/csv'',
                 content_disposition = attachment ''authors'' (strftime now ''%Y%m%d_%H%M''),
                 rows = authors_header # rs \<rparr> \<and>
         length rs = length (filter (is_author conf) (users d)) \<and>
         (\<forall>i<length rs. \<exists>prof.
            user_profile d (sort_key u_pk (filter (is_author conf) (users d)) ! i) = Inr prof \<and>
            rs ! i =
              [IntCell (1 + int i),
               IntCell (u_pk (sort_key u_pk (filter (is_author conf) (users d)) ! i)),
               StrCell (full_name prof), StrCell (full_name_rus prof), StrCell (degree prof),
               StrCell (country_display prof), StrCell (city prof), StrCell (affiliation prof),
               StrCell (role prof),
               StrCell (email (sort_key u_pk (filter (is_author conf) (users d)) ! i))])"
proof -
  let ?us = "sort_key u_pk (filter (is_author conf) (users d))"
  have us: "filter (is_author conf) (sort_key u_pk (users d)) = ?us" by (rule filter_sort)
  have prof: "has_profile d x" if "x \<in> set ?us" for x
    using that assms(2) by (simp add: list_all_iff)
  then have "\<exists>r. author_row d n x = Inr r" if "x \<in> set ?us" for n x
    using author_row_Inr[of d x n] that by blast
  from write_rows_total[of ?us "author_row d" 1 "[authors_header]", OF this]
  obtain rs where w: "write_rows (author_row d) ?us 1 [authors_header] = Inr ([authors_header] @ rs)"
    and len: "length rs = length ?us"
    and each: "\<forall>i<length ?us. author_row d (1 + int i) (?us ! i) = Inr (rs ! i)"
    by blast
  have "\<exists>prof. user_profile d (?us ! i) = Inr prof \<and>
            rs ! i =
              [IntCell (1 + int i), IntCell (u_pk (?us ! i)),
               StrCell (full_name prof), StrCell (full_name_rus prof), StrCell (degree prof),
               StrCell (country_display prof), StrCell (city prof), StrCell (affiliation prof),
               StrCell (role prof), StrCell (email (?us ! i))]"
    if "i < length rs" for i
  proof -
    from that len have "?us ! i \<in> set ?us" by (metis nth_mem)
    from author_row_Inr[OF prof[OF this], of "1 + int i"] each that len
    show ?thesis by auto
  qed
  moreover from assms(1) w have "get_authors_csv is_author now d rq pk =
           Inr \<lparr> content_type = ''text/csv'',
                 content_disposition = attachment ''authors'' (strftime now ''%Y%m%d_%H%M''),
                 rows = authors_header # rs \<rparr>"
    by (simp add: get_authors_csv_def Let_def us)
  ultimately show ?thesis using len by (intro exI[of _ rs]) simp
qed

lemma get_authors_csv_raises:
  assumes "get_object_or_404 d pk = Inr conf"
    and "\<not> list_all (has_profile d) (filter (is_author conf) (users d))"
  shows "get_authors_csv is_author now d rq pk = Inl RelatedObjectDoesNotExist"
proof -
  let ?us = "filter (is_author conf) (sort_key u_pk (users d))"
  from assms(2) obtain u where u: "u \<in> set ?us" "\<not> has_profile d u"
    by (auto simp: list_all_iff)
  then obtain i where i: "i < length ?us" "?us ! i = u" by (meson in_set_conv_nth)
  from u(2) have bad: "author_row d n u = Inl RelatedObjectDoesNotExist" for n
    by (auto simp: author_row_def has_profile_def user_profile_def split: option.splits)
  show ?thesis
  proof (cases "write_rows (author_row d) ?us 1 [authors_header]")
    case (Inl e)
    from write_rows_Inl[OF this] author_row_Inl have "e = RelatedObjectDoesNotExist" by blast
    with Inl assms(1) show ?thesis by (simp add: get_authors_csv_def Let_def)
  next
    case (Inr res)
    then obtain rs where "\<forall>i<length ?us. author_row d (1 + int i) (?us ! i) = Inr (rs ! i)"
      unfolding write_rows_Inr by blast
    with i bad[of "1 + int i"] show ?thesis by auto
  qed
qed

lemma demo_authors:
  "filter (has_authorship demo_db demo_conf) (users demo_db) =
     [demo_user 2 ''bob@example.org'', demo_user 1 ''ann@example.org'']"
  by (simp add: has_authorship_def authorship_in_conference_def demo_defs)

lemma demo_authors_profiled:
  "list_all (has_profile demo_db) (filter (has_authorship demo_db demo_conf) (users demo_db))"
  unfolding demo_authors by (simp add: has_profile_def user_profile_def demo_defs)

lemmas orphan_defs = orphan_db_def demo_defs

lemma orphan_conf_found: "get_object_or_404 orphan_db 1 = Inr demo_conf"
  by (simp add: get_object_or_404_def orphan_defs)

subsection \<open>Timestamps\<close>

lemma digit_char_is_digit: "n < 10 \<Longrightarrow> is_digit (digit_char n)"
proof -
  assume "n < 10"
  then have "n \<in> {0, 1, 2, 3, 4, 5, 6, 7, 8, 9}" by auto
  then show ?thesis by (auto simp: digit_char_def is_digit_def)
qed

lemma str_nat_digits: "list_all is_digit (str_nat n)"
proof (induction n rule: str_nat.induct)
  case (1 n)
  show ?case
  proof (cases "n < 10")
    case True
    then show ?thesis by (subst str_nat.simps) (simp add: digit_char_is_digit)
  next
    case False
    with 1 show ?thesis by (subst str_nat.simps) (simp add: digit_char_is_digit)
  qed
qed

lemma length_str_nat: "n < 10 ^ k \<Longrightarrow> 0 < k \<Longrightarrow> length (str_nat n) \<le> k"
proof (induction n arbitrary: k rule: str_nat.induct)
  case (1 n)
  show ?case
  proof (cases "n < 10")
    case True
    with 1(3) show ?thesis by (subst str_nat.simps) simp
  next
    case False
    from 1(3) obtain j where k: "k = Suc j" by (cases k) auto
    with False 1(2) have j: "0 < j" by (cases j) auto
    from 1(2) k have "n div 10 < 10 ^ j"
      by (simp add: less_mult_imp_div_less mult.commute)
    from 1(1)[OF False this j] k False show ?thesis
      by (subst str_nat.simps) simp
  qed
qed

lemma zero_pad_form:
  assumes "n < 10 ^ k" and "0 < k"
  shows "length (zero_pad k n) = k" and "list_all is_digit (zero_pad k n)"
proof -
  from length_str_nat[OF assms] show "length (zero_pad k n) = k"
    by (simp add: zero_pad_def)
  have "is_digit CHR ''0''" by (simp add: is_digit_def)
  then have "list_all is_digit (replicate (k - length (str_nat n)) CHR ''0'')"
    by (simp add: list_all_iff)
  then show "list_all is_digit (zero_pad k n)"
    by (simp add: zero_pad_def str_nat_digits)
qed

lemma strftime_stamp:
  "strftime t ''%Y%m%d_%H%M'' =
     zero_pad 4 (year t) @ zero_pad 2 (month t) @ zero_pad 2 (day t) @ ''_'' @
     zero_pad 2 (hour t) @ zero_pad 2 (minute t)"
  by (simp add: directive_def)

lemma stamp_form:
  assumes "valid_datetime t"
  shows "timestamp_form (strftime t ''%Y%m%d_%H%M'')"
proof -
  from assms have b: "year t < 10 ^ 4" "month t < 10 ^ 2" "day t < 10 ^ 2" "hour t < 10 ^ 2"
    "minute t < 10 ^ 2"
    by (simp_all add: valid_datetime_def)
  note y = zero_pad_form[OF b(1)] and m = zero_pad_form[OF b(2)] and d = zero_pad_form[OF b(3)]
    and h = zero_pad_form[OF b(4)] and mi = zero_pad_form[OF b(5)]
  show ?thesis
    unfolding strftime_stamp timestamp_form_def
    by (simp add: y m d h mi nth_append)
qed

lemma get_submissions_csv_headers:
  "get_submissions_csv set_iter urls now d request pk = Inr resp \<Longrightarrow>
   content_type resp = ''text/csv'' \<and>
   content_disposition resp = attachment ''submissions'' (strftime now ''%Y%m%d_%H%M'')"
  by (auto simp: get_submissions_csv_def Let_def split: sum.splits)

lemma get_authors_csv_headers:
  "get_authors_csv is_author now d request pk = Inr resp \<Longrightarrow>
   content_type resp = ''text/csv'' \<and>
   content_disposition resp = attachment ''authors'' (strftime now ''%Y%m%d_%H%M'')"
  by (auto simp: get_authors_csv_def Let_def split: sum.splits)

lemma demo_now_valid: "valid_datetime demo_now"
  by (simp add: valid_datetime_def demo_now_def)

lemma demo_stamp: "strftime demo_now ''%Y%m%d_%H%M'' = ''20190307_0905''"
  by (simp add: directive_def zero_pad_def str_nat.simps digit_char_def demo_now_def)

subsection \<open>Dictionaries and the users listing\<close>

lemma collect_Inr_map:
  "(\<And>x. x \<in> set xs \<Longrightarrow> f x = Inr (g x)) \<Longrightarrow> collect f xs = Inr (map g xs)"
  by (induction xs) simp_all

lemma collect_Inr_set:
  "collect f xs = Inr ys \<Longrightarrow> y \<in> set ys \<Longrightarrow> \<exists>x\<in>set xs. f x = Inr y"
  by (induction xs arbitrary: ys) (auto split: sum.splits)

lemma collect_total:
  "(\<And>x. x \<in> set xs \<Longrightarrow> \<exists>y. f x = Inr y) \<Longrightarrow> \<exists>ys. collect f xs = Inr ys"
proof -
  assume a: "\<And>x. x \<in> set xs \<Longrightarrow> \<exists>y. f x = Inr y"
  have "collect f xs = Inr (map (\<lambda>x. projr (f x)) xs)"
  proof (rule collect_Inr_map)
    fix x assume "x \<in> set xs"
    from a[OF this] show "f x = Inr (projr (f x))" by auto
  qed
  then show ?thesis ..
qed

lemma authorship_in_conference_pk:
  "u_pk u = u_pk u' \<Longrightarrow> authorship_in_conference d conf u = authorship_in_conference d conf u'"
  by (simp add: authorship_in_conference_def)

lemma user_profile_pk: "u_pk u = u_pk u' \<Longrightarrow> user_profile d u = user_profile d u'"
  by (simp add: user_profile_def)

lemma dict_getitem_setitem:
  "dict_getitem (dict_setitem dict k v) k' =
     (if u_pk k' = u_pk k then Inr v else dict_getitem dict k')"
  by (induction dict) auto

lemma dict_setitem_entries:
  "e \<in> set (dict_setitem dict k v) \<Longrightarrow>
     e \<in> set dict \<or> (u_pk (fst e) = u_pk k \<and> snd e = v)"
  by (induction dict) (auto split: if_splits)

lemma dict_setitem_new:
  "u_pk k \<notin> u_pk ` fst ` set dict \<Longrightarrow> dict_setitem dict k v = dict @ [(k, v)]"
  by (induction dict) auto

lemma build_authors_get:
  "dict_getitem (build_authors d conf us dict) k =
     (if u_pk k \<in> u_pk ` set us then Inr (authorship_in_conference d conf k)
      else dict_getitem dict k)"
proof (induction us arbitrary: dict)
  case Nil
  show ?case by simp
next
  case (Cons u us)
  show ?case
    using authorship_in_conference_pk[of k u d conf]
    by (simp add: Cons.IH dict_getitem_setitem)
qed

lemma build_profiles_entries:
  "build_profiles d us dict = Inr res \<Longrightarrow> e \<in> set res \<Longrightarrow>
   (\<And>e. e \<in> set dict \<Longrightarrow> user_profile d (fst e) = Inr (snd e) \<and> u_pk (fst e) \<in> K) \<Longrightarrow>
   u_pk ` set us \<subseteq> K \<Longrightarrow>
   user_profile d (fst e) = Inr (snd e) \<and> u_pk (fst e) \<in> K"
proof (induction us arbitrary: dict)
  case Nil
  then show ?case by simp
next
  case (Cons u us)
  from Cons.prems(1) obtain p where p: "user_profile d u = Inr p"
    and r: "build_profiles d us (dict_setitem dict u p) = Inr res"
    by (auto split: sum.splits)
  show ?case
  proof (rule Cons.IH[OF r Cons.prems(2)])
    fix e' assume "e' \<in> set (dict_setitem dict u p)"
    from dict_setitem_entries[OF this]
    show "user_profile d (fst e') = Inr (snd e') \<and> u_pk (fst e') \<in> K"
    proof
      assume "e' \<in> set dict"
      then show ?thesis by (rule Cons.prems(3))
    next
      assume "u_pk (fst e') = u_pk u \<and> snd e' = p"
      with p Cons.prems(4) user_profile_pk[of "fst e'" u d] show ?thesis by auto
    qed
  next
    from Cons.prems(4) show "u_pk ` set us \<subseteq> K" by auto
  qed
qed

lemma build_profiles_total:
  "list_all (has_profile d) us \<Longrightarrow> \<exists>res. build_profiles d us dict = Inr res"
  by (induction us arbitrary: dict) (auto simp: has_profile_def split: sum.splits)

lemma build_profiles_distinct:
  "list_all (has_profile d) us \<Longrightarrow> distinct (map u_pk us) \<Longrightarrow>
   u_pk ` set us \<inter> u_pk ` fst ` set dict = {} \<Longrightarrow>
   build_profiles d us dict = Inr (dict @ map (\<lambda>u. (u, projr (user_profile d u))) us)"
proof (induction us arbitrary: dict)
  case Nil
  then show ?case by simp
next
  case (Cons u us)
  from Cons.prems(1) obtain p where p: "user_profile d u = Inr p"
    by (auto simp: has_profile_def split: sum.splits)
  from Cons.prems(3) have new: "dict_setitem dict u p = dict @ [(u, p)]"
    by (intro dict_setitem_new) auto
  have "build_profiles d us (dict @ [(u, p)]) =
      Inr ((dict @ [(u, p)]) @ map (\<lambda>u. (u, projr (user_profile d u))) us)"
  proof (rule Cons.IH)
    from Cons.prems(1) show "list_all (has_profile d) us" by simp
    from Cons.prems(2) show "distinct (map u_pk us)" by simp
    from Cons.prems(2,3) show "u_pk ` set us \<inter> u_pk ` fst ` set (dict @ [(u, p)]) = {}"
      by auto
  qed
  with p new show ?case by simp
qed

lemma users_list_items:
  assumes "get_object_or_404 d pk = Inr conf"
    and "users_list F d request pk = Inr ctx"
    and "item \<in> set (uc_users ctx)"
  shows "\<exists>u\<in>set (apply_filter (F (GET request) conf) (users d)).
           ui_pk item = u_pk u \<and>
           num_submissions item = int (length (authorship_in_conference d conf u)) \<and>
           is_participant item = (authorship_in_conference d conf u \<noteq> [])"
proof -
  let ?us = "apply_filter (F (GET request) conf) (users d)"
  let ?authors = "build_authors d conf ?us []"
  from assms(1,2) obtain profs ups where profs: "build_profiles d ?us [] = Inr profs"
    and ups: "collect (user_shape ?authors) profs = Inr ups"
    and ctx: "uc_users ctx = ups"
    by (auto simp: users_list_def Let_def split: sum.splits)
  from collect_Inr_set[OF ups] assms(3) ctx
  obtain e where e: "e \<in> set profs" "user_shape ?authors e = Inr item" by blast
  from build_profiles_entries[OF profs e(1), of "u_pk ` set ?us"]
  have "u_pk (fst e) \<in> u_pk ` set ?us" by simp
  then obtain u where u: "u \<in> set ?us" "u_pk (fst e) = u_pk u" by auto
  then have get: "dict_getitem ?authors (fst e) = Inr (authorship_in_conference d conf u)"
    using authorship_in_conference_pk[OF u(2), of d conf]
    by (simp add: build_authors_get)
  from e(2) get u(2) have "ui_pk item = u_pk u \<and>
           num_submissions item = int (length (authorship_in_conference d conf u)) \<and>
           is_participant item = (authorship_in_conference d conf u \<noteq> [])"
    by (cases e) (auto simp: user_shape_def)
  with u(1) show ?thesis by blast
qed

lemma users_list_total:
  assumes "get_object_or_404 d pk = Inr conf"
    and "list_all (has_profile d) (apply_filter (F (GET request) conf) (users d))"
  shows "\<exists>ctx. users_list F d request pk = Inr ctx"
proof -
  let ?us = "apply_filter (F (GET request) conf) (users d)"
  let ?authors = "build_authors d conf ?us []"
  from build_profiles_total[OF assms(2), of "[]"]
  obtain profs where profs: "build_profiles d ?us [] = Inr profs" by blast
  have "\<exists>y. user_shape ?authors e = Inr y" if "e \<in> set profs" for e
  proof -
    from build_profiles_entries[OF profs that, of "u_pk ` set ?us"]
    have "u_pk (fst e) \<in> u_pk ` set ?us" by simp
    then show ?thesis
      by (cases e) (simp add: user_shape_def build_authors_get)
  qed
  from collect_total[of profs "user_shape ?authors", OF this]
  obtain ups where "collect (user_shape ?authors) profs = Inr ups" by blast
  with assms(1) profs show ?thesis
    by (simp add: users_list_def Let_def)
qed

lemma users_list_distinct:
  assumes "get_object_or_404 d pk = Inr conf"
    and "list_all (has_profile d) (apply_filter (F (GET request) conf) (users d))"
    and "distinct (map u_pk (apply_filter (F (GET request) conf) (users d)))"
  shows "\<exists>ctx. users_list F d request pk = Inr ctx \<and> uc_conference ctx = conf \<and>
           map ui_pk (uc_users ctx) = map u_pk (apply_filter (F (GET request) conf) (users d))"
proof -
  let ?us = "apply_filter (F (GET request) conf) (users d)"
  let ?authors = "build_authors d conf ?us []"
  let ?profs = "map (\<lambda>u. (u, projr (user_profile d u))) ?us"
  let ?g = "\<lambda>e. projr (user_shape ?authors e)"
  from build_profiles_distinct[OF assms(2,3), of "[]"]
  have profs: "build_profiles d ?us [] = Inr ?profs" by simp
  have shape: "user_shape ?authors e = Inr (?g e) \<and> ui_pk (?g e) = u_pk (fst e)"
    if "e \<in> set ?profs" for e
  proof -
    from that have "u_pk (fst e) \<in> u_pk ` set ?us" by auto
    then show ?thesis
      by (cases e) (simp add: user_shape_def build_authors_get)
  qed
  then have "collect (user_shape ?authors) ?profs = Inr (map ?g ?profs)"
    by (intro collect_Inr_map) blast
  with assms(1) profs have r: "users_list F d request pk =
      Inr \<lparr> uc_conference = conf, uc_users = map ?g ?profs,
            uc_filter_form = F (GET request) conf \<rparr>"
    by (simp add: users_list_def Let_def)
  have "map ui_pk (map ?g ?profs) = map u_pk ?us"
    using shape by (simp add: comp_def)
  with r show ?thesis by simp
qed

lemma find_submission_scoped:
  "distinct (map s_pk xs) \<Longrightarrow>
   (case find (\<lambda>s. s_pk s = k) xs of None \<Rightarrow> False | Some s \<Rightarrow> s_conference s = c) =
   list_ex (\<lambda>s. s_pk s = k \<and> s_conference s = c) xs"
  by (induction xs) (auto simp: list_ex_iff image_iff)

lemma authorship_in_conference_scoped:
  "distinct (map s_pk (submissions d)) \<Longrightarrow>
   authorship_in_conference d conf u = filter (scoped_authorship d conf (u_pk u)) (authorships d)"
  unfolding scoped_authorship_def[abs_def]
  by (simp add: authorship_in_conference_def find_submission_scoped)

lemma demo_keys:
  "distinct (map s_pk (submissions demo_db))" "distinct (map a_pk (authorships demo_db))"
  "distinct (map u_pk (users demo_db))"
  by (simp_all add: demo_defs)

lemma demo_users_profiled: "list_all (has_profile demo_db) (users demo_db)"
  by (simp add: has_profile_def user_profile_def demo_defs)

lemma demo_users_list:
  "\<exists>ctx. users_list (filter_form demo_interp) demo_db demo_request 1 = Inr ctx \<and>
     map ui_pk (uc_users ctx) = [2, 1, 3] \<and>
     map num_submissions (uc_users ctx) = [1, 2, 0] \<and>
     map is_participant (uc_users ctx) = [True, True, False]"
  by (simp add: users_list_def get_object_or_404_def apply_filter_def filter_form_def
      user_profile_def user_shape_def authorship_in_conference_def demo_defs)

lemma demo_unfiltered:
  "apply_filter (filter_form demo_interp (GET demo_request) demo_conf) (users demo_db) = users demo_db"
  by (simp add: apply_filter_def filter_form_def demo_request_def)

lemma apply_filter_ignored:
  "\<not> is_valid (F q conf) \<or> (q = [] \<and> F = filter_form interp) \<Longrightarrow>
   apply_filter (F q conf) records = records"
  by (auto simp: apply_filter_def filter_form_def)

subsection \<open>Rows of the submissions export\<close>

text \<open>
  C1. For a conference with \<open>N\<close> submissions, all exportable, \<^verbatim>\<open>get_submissions_csv\<close>
  returns a response with exactly \<open>N + 1\<close> rows: the header row first, then one row per
  submission, whose first cells are the numbers \<open>1..N\<close> and whose second cells are the
  submissions' primary keys in ascending order, whatever the order in which the
  submissions were fetched.
\<close>

theorem get_submissions_csv_rows:
  assumes "get_object_or_404 d pk = Inr conf"
    and "list_all (exportable d) (submission_set d conf)"
  shows "\<exists>resp. get_submissions_csv set_iter urls now d request pk = Inr resp \<and>
     length (rows resp) = length (submission_set d conf) + 1 \<and>
     hd (rows resp) = submissions_header \<and>
     map (\<lambda>row. row ! 0) (tl (rows resp)) = map IntCell [1..int (length (submission_set d conf))] \<and>
     map (\<lambda>row. row ! 1) (tl (rows resp)) = map IntCell (sort (map s_pk (submission_set d conf)))"
proof -
  let ?subs = "sort_key s_pk (submission_set d conf)"
  from get_submissions_csv_exportable[OF assms, of set_iter urls now request]
  obtain rs where resp: "get_submissions_csv set_iter urls now d request pk =
        Inr \<lparr> content_type = ''text/csv'',
              content_disposition = attachment ''submissions'' (strftime now ''%Y%m%d_%H%M''),
              rows = submissions_header # rs \<rparr>"
    and len: "length rs = length (submission_set d conf)"
    and each: "\<forall>i<length rs. submission_row set_iter urls d request (1 + int i) (?subs ! i) = Inr (rs ! i)"
    by blast
  have cells: "rs ! i ! 0 = IntCell (1 + int i) \<and> rs ! i ! 1 = IntCell (s_pk (?subs ! i))"
    if "i < length rs" for i
  proof -
    from that len have "?subs ! i \<in> set (submission_set d conf)"
      by (metis length_sort nth_mem set_sort)
    with assms(2) have "exportable d (?subs ! i)" by (simp add: list_all_iff)
    from submission_row_exportable[OF this, of set_iter urls request "1 + int i"] each that
    show ?thesis by auto
  qed
  have numbers: "map (\<lambda>row. row ! 0) rs = map IntCell [1..int (length (submission_set d conf))]"
  proof (rule nth_equalityI)
    show "length (map (\<lambda>row. row ! 0) rs) = length (map IntCell [1..int (length (submission_set d conf))])"
      by (simp add: len)
  next
    fix i assume "i < length (map (\<lambda>row. row ! 0) rs)"
    then have i: "i < length rs" by simp
    with len have "1 + int i \<le> int (length (submission_set d conf))" by simp
    then have "[1..int (length (submission_set d conf))] ! i = 1 + int i" by (rule nth_upto)
    with i len cells[OF i]
    show "map (\<lambda>row. row ! 0) rs ! i = map IntCell [1..int (length (submission_set d conf))] ! i"
      by simp
  qed
  have "map (\<lambda>row. row ! 1) rs = map IntCell (map s_pk ?subs)"
  proof (rule nth_equalityI)
    show "length (map (\<lambda>row. row ! 1) rs) = length (map IntCell (map s_pk ?subs))"
      by (simp add: len)
  next
    fix i assume "i < length (map (\<lambda>row. row ! 1) rs)"
    then have i: "i < length rs" by simp
    with len cells[OF i]
    show "map (\<lambda>row. row ! 1) rs ! i = map IntCell (map s_pk ?subs) ! i"
      by simp
  qed
  then have ids: "map (\<lambda>row. row ! 1) rs = map IntCell (sort (map s_pk (submission_set d conf)))"
    by (simp only: map_sort_key)
  from resp len numbers ids show ?thesis by simp
qed

theorem get_submissions_csv_rows_witness:
  "get_object_or_404 demo_db 1 = Inr demo_conf \<and>
   list_all (exportable demo_db) (submission_set demo_db demo_conf) \<and>
   (\<exists>resp. get_submissions_csv remdups demo_urls demo_now demo_db demo_request 1 = Inr resp \<and>
      length (rows resp) = 3 \<and>
      hd (rows resp) = submissions_header \<and>
      map (\<lambda>row. row ! 0) (tl (rows resp)) = [IntCell 1, IntCell 2] \<and>
      map (\<lambda>row. row ! 1) (tl (rows resp)) = [IntCell 3, IntCell 5])"
proof -
  have n: "submission_set demo_db demo_conf =
      [demo_submission 5 ''Queues'' (Some 1) ''q.pdf'' (Some ''English''),
       demo_submission 3 ''Graphs'' None [] None]"
    by (simp add: submission_set_def demo_defs)
  have u: "[1..2] = [1, 2::int]" by (simp add: upto.simps)
  have s: "sort (map s_pk (submission_set demo_db demo_conf)) = [3, 5]"
    by (simp add: n demo_submission_def)
  have l: "length (submission_set demo_db demo_conf) + 1 = 3" "int (length (submission_set demo_db demo_conf)) = 2"
    by (simp_all add: n)
  from get_submissions_csv_rows[OF demo_conf_found demo_exportable, of remdups demo_urls demo_now demo_request]
  have "\<exists>resp. get_submissions_csv remdups demo_urls demo_now demo_db demo_request 1 = Inr resp \<and>
      length (rows resp) = 3 \<and>
      hd (rows resp) = submissions_header \<and>
      map (\<lambda>row. row ! 0) (tl (rows resp)) = [IntCell 1, IntCell 2] \<and>
      map (\<lambda>row. row ! 1) (tl (rows resp)) = [IntCell 3, IntCell 5]"
    unfolding s l u by simp
  with demo_conf_found demo_exportable show ?thesis by blast
qed

text \<open>
  C4. In every submission row of \<^verbatim>\<open>get_submissions_csv\<close> the cell of the \<^verbatim>\<open>LINK\<close>
  column is the empty string when the submission has no manuscript attached; when it has
  one, the cell is the absolute URL made of the request's scheme and host and the path of
  the download route, which holds the submission's primary key in decimal.
\<close>

theorem get_submissions_csv_link:
  assumes "get_object_or_404 d pk = Inr conf"
    and "list_all (exportable d) (submission_set d conf)"
  shows "\<exists>resp. get_submissions_csv set_iter urls now d request pk = Inr resp \<and>
     hd (rows resp) ! 8 = StrCell ''LINK'' \<and>
     (\<forall>i<length (submission_set d conf).
        rows resp ! (i + 1) ! 8 =
          StrCell (if review_manuscript (sort_key s_pk (submission_set d conf) ! i) = []
                   then []
                   else scheme request @ ''://'' @ host request @ pat_prefix urls @
                        str_int (s_pk (sort_key s_pk (submission_set d conf) ! i)) @
                        pat_suffix urls))"
proof -
  from get_submissions_csv_cells[OF assms, of set_iter urls now request]
  obtain rs where resp: "get_submissions_csv set_iter urls now d request pk =
        Inr \<lparr> content_type = ''text/csv'',
              content_disposition = attachment ''submissions'' (strftime now ''%Y%m%d_%H%M''),
              rows = submissions_header # rs \<rparr>"
    and len: "length rs = length (submission_set d conf)"
    and each: "\<And>i. i < length rs \<Longrightarrow>
       rs ! i ! 8 = StrCell (if review_manuscript (sort_key s_pk (submission_set d conf) ! i) \<noteq> []
                        then scheme request @ ''://'' @ host request @ pat_prefix urls @
                             str_int (s_pk (sort_key s_pk (submission_set d conf) ! i)) @ pat_suffix urls
                        else [])"
    by fastforce
  show ?thesis
    unfolding resp using len each by (simp add: submissions_header_def)
qed

theorem get_submissions_csv_link_witness:
  "get_object_or_404 demo_db 1 = Inr demo_conf \<and>
   list_all (exportable demo_db) (submission_set demo_db demo_conf) \<and>
   (\<exists>resp. get_submissions_csv remdups demo_urls demo_now demo_db demo_request 1 = Inr resp \<and>
      rows resp ! 1 ! 8 = StrCell [] \<and>
      rows resp ! 2 ! 8 = StrCell ''https://example.org/submissions/5/manuscript/'')"
proof -
  from get_submissions_csv_link[OF demo_conf_found demo_exportable, of remdups demo_urls demo_now demo_request]
  obtain resp where r: "get_submissions_csv remdups demo_urls demo_now demo_db demo_request 1 = Inr resp"
    and c: "\<forall>i<length (submission_set demo_db demo_conf).
        rows resp ! (i + 1) ! 8 =
          StrCell (if review_manuscript (sort_key s_pk (submission_set demo_db demo_conf) ! i) = []
                   then []
                   else scheme demo_request @ ''://'' @ host demo_request @ pat_prefix demo_urls @
                        str_int (s_pk (sort_key s_pk (submission_set demo_db demo_conf) ! i)) @
                        pat_suffix demo_urls)"
    by blast
  have n: "length (submission_set demo_db demo_conf) = 2"
    by (simp add: submission_set_def demo_defs)
  from c n have "rows resp ! (0 + 1) ! 8 = StrCell []"
    unfolding demo_sorted by (simp add: demo_submission_def)
  moreover from c[rule_format, of 1] n
  have "rows resp ! (1 + 1) ! 8 = StrCell ''https://example.org/submissions/5/manuscript/''"
    unfolding demo_sorted
    by (simp add: demo_submission_def demo_request_def demo_urls_def str_int_def str_nat.simps
        digit_char_def)
  ultimately show ?thesis using r demo_conf_found demo_exportable by (auto simp: numeral_2_eq_2)
qed

text \<open>
  C5. A submission with no creator does not make \<^verbatim>\<open>get_submissions_csv\<close> raise: when
  the submissions of the conference are exportable (which asks nothing of an absent
  creator) the export returns, and in the row of every submission with no creator the
  cells of the columns \<^verbatim>\<open>CORR_AUTHOR\<close> and \<^verbatim>\<open>CORR_EMAIL\<close> are the empty string.
\<close>

theorem get_submissions_csv_no_creator:
  assumes "get_object_or_404 d pk = Inr conf"
    and "list_all (exportable d) (submission_set d conf)"
  shows "\<exists>resp. get_submissions_csv set_iter urls now d request pk = Inr resp \<and>
     hd (rows resp) ! 5 = StrCell ''CORR_AUTHOR'' \<and>
     hd (rows resp) ! 6 = StrCell ''CORR_EMAIL'' \<and>
     (\<forall>i<length (submission_set d conf).
        created_by (sort_key s_pk (submission_set d conf) ! i) = None \<longrightarrow>
        rows resp ! (i + 1) ! 5 = StrCell [] \<and> rows resp ! (i + 1) ! 6 = StrCell [])"
proof -
  from get_submissions_csv_cells[OF assms, of set_iter urls now request]
  obtain rs where resp: "get_submissions_csv set_iter urls now d request pk =
        Inr \<lparr> content_type = ''text/csv'',
              content_disposition = attachment ''submissions'' (strftime now ''%Y%m%d_%H%M''),
              rows = submissions_header # rs \<rparr>"
    and len: "length rs = length (submission_set d conf)"
    and each: "\<And>i. i < length rs \<Longrightarrow>
       created_by (sort_key s_pk (submission_set d conf) ! i) = None \<Longrightarrow>
       rs ! i ! 5 = StrCell [] \<and> rs ! i ! 6 = StrCell []"
    by fastforce
  show ?thesis
    unfolding resp using len each by (simp add: submissions_header_def)
qed

theorem get_submissions_csv_no_creator_witness:
  "get_object_or_404 demo_db 1 = Inr demo_conf \<and>
   list_all (exportable demo_db) (submission_set demo_db demo_conf) \<and>
   created_by (sort_key s_pk (submission_set demo_db demo_conf) ! 0) = None \<and>
   (\<exists>resp. get_submissions_csv remdups demo_urls demo_now demo_db demo_request 1 = Inr resp \<and>
      rows resp ! 1 ! 5 = StrCell [] \<and> rows resp ! 1 ! 6 = StrCell [])"
proof -
  from get_submissions_csv_no_creator[OF demo_conf_found demo_exportable, of remdups demo_urls demo_now demo_request]
  obtain resp where r: "get_submissions_csv remdups demo_urls demo_now demo_db demo_request 1 = Inr resp"
    and c: "\<forall>i<length (submission_set demo_db demo_conf).
        created_by (sort_key s_pk (submission_set demo_db demo_conf) ! i) = None \<longrightarrow>
        rows resp ! (i + 1) ! 5 = StrCell [] \<and> rows resp ! (i + 1) ! 6 = StrCell []"
    by blast
  have n: "0 < length (submission_set demo_db demo_conf)"
    by (simp add: submission_set_def demo_defs)
  have o: "created_by (sort_key s_pk (submission_set demo_db demo_conf) ! 0) = None"
    unfolding demo_sorted by (simp add: demo_submission_def)
  from c[rule_format, OF n o] have "rows resp ! 1 ! 5 = StrCell [] \<and> rows resp ! 1 ! 6 = StrCell []"
    by simp
  with r o demo_conf_found demo_exportable show ?thesis by blast
qed

text \<open>
  C8. In every submission row of \<^verbatim>\<open>get_submissions_csv\<close> the cell of the
  \<^verbatim>\<open>COUNTRY\<close> column is the join, with a comma and a space, of a list in which every
  country label of the submission's authors comes exactly once; the order of that list is
  the order in which the set is iterated, and is not fixed.
\<close>

theorem get_submissions_csv_countries:
  assumes "set_order set_iter"
    and "get_object_or_404 d pk = Inr conf"
    and "list_all (exportable d) (submission_set d conf)"
  shows "\<exists>resp. get_submissions_csv set_iter urls now d request pk = Inr resp \<and>
     hd (rows resp) ! 4 = StrCell ''COUNTRY'' \<and>
     (\<forall>i<length (submission_set d conf).
        \<exists>labels. rows resp ! (i + 1) ! 4 = StrCell (join '', '' labels) \<and>
                 distinct labels \<and>
                 set labels = set (country_labels d (sort_key s_pk (submission_set d conf) ! i)))"
proof -
  from get_submissions_csv_cells[OF assms(2,3), of set_iter urls now request]
  obtain rs where resp: "get_submissions_csv set_iter urls now d request pk =
        Inr \<lparr> content_type = ''text/csv'',
              content_disposition = attachment ''submissions'' (strftime now ''%Y%m%d_%H%M''),
              rows = submissions_header # rs \<rparr>"
    and len: "length rs = length (submission_set d conf)"
    and each: "\<And>i. i < length rs \<Longrightarrow>
       rs ! i ! 4 = StrCell (join '', ''
          (set_iter (country_labels d (sort_key s_pk (submission_set d conf) ! i))))"
    by fastforce
  from assms(1) have order: "distinct (set_iter xs) \<and> set (set_iter xs) = set xs" for xs
    by (simp add: set_order_def)
  have "\<exists>labels. rs ! i ! 4 = StrCell (join '', '' labels) \<and> distinct labels \<and>
          set labels = set (country_labels d (sort_key s_pk (submission_set d conf) ! i))"
    if "i < length rs" for i
    using each[OF that] order by blast
  then show ?thesis
    unfolding resp using len by (simp add: submissions_header_def)
qed

theorem get_submissions_csv_countries_witness:
  "set_order remdups \<and>
   get_object_or_404 demo_db 1 = Inr demo_conf \<and>
   list_all (exportable demo_db) (submission_set demo_db demo_conf) \<and>
   country_labels demo_db (sort_key s_pk (submission_set demo_db demo_conf) ! 1) = [''Russia'', ''Russia''] \<and>
   (\<exists>resp. get_submissions_csv remdups demo_urls demo_now demo_db demo_request 1 = Inr resp \<and>
      (\<exists>labels. rows resp ! 2 ! 4 = StrCell (join '', '' labels) \<and> distinct labels \<and>
                set labels = {''Russia''}))"
proof -
  from get_submissions_csv_countries[OF set_order_remdups demo_conf_found demo_exportable,
      of demo_urls demo_now demo_request]
  obtain resp where r: "get_submissions_csv remdups demo_urls demo_now demo_db demo_request 1 = Inr resp"
    and c: "\<forall>i<length (submission_set demo_db demo_conf).
        \<exists>labels. rows resp ! (i + 1) ! 4 = StrCell (join '', '' labels) \<and>
                 distinct labels \<and>
                 set labels = set (country_labels demo_db (sort_key s_pk (submission_set demo_db demo_conf) ! i))"
    by blast
  have n: "1 < length (submission_set demo_db demo_conf)"
    by (simp add: submission_set_def demo_defs)
  have l: "country_labels demo_db (sort_key s_pk (submission_set demo_db demo_conf) ! 1) = [''Russia'', ''Russia'']"
    unfolding demo_sorted
    by (simp add: country_labels_def authors_all_def author_profile_def get_user_def
        user_profile_def demo_defs)
  from c[rule_format, OF n] have "\<exists>labels. rows resp ! 2 ! 4 = StrCell (join '', '' labels) \<and>
      distinct labels \<and> set labels = {''Russia''}"
    unfolding l by (simp add: numeral_2_eq_2)
  with r l set_order_remdups demo_conf_found demo_exportable show ?thesis by blast
qed

subsection \<open>Rows of the authors export\<close>

text \<open>
  C7. When the users selected by \<^verbatim>\<open>is_author\<close> have profiles, \<^verbatim>\<open>get_authors_csv\<close>
  returns the header row and after it exactly one row per user for whom \<^verbatim>\<open>is_author\<close>
  holds in the conference, in ascending order of the users' primary keys, with the cells
  in the order: sequence number, id, full name, secondary full name, degree, country
  label, city, affiliation, role, email.
\<close>

theorem get_authors_csv_rows:
  assumes "get_object_or_404 d pk = Inr conf"
    and "list_all (has_profile d) (filter (is_author conf) (users d))"
  shows "\<exists>resp. get_authors_csv is_author now d request pk = Inr resp \<and>
     hd (rows resp) = authors_header \<and>
     length (tl (rows resp)) = length (filter (is_author conf) (users d)) \<and>
     (\<forall>i<length (filter (is_author conf) (users d)). \<exists>prof.
        user_profile d (sort_key u_pk (filter (is_author conf) (users d)) ! i) = Inr prof \<and>
        rows resp ! (i + 1) =
          [IntCell (1 + int i),
           IntCell (u_pk (sort_key u_pk (filter (is_author conf) (users d)) ! i)),
           StrCell (full_name prof), StrCell (full_name_rus prof), StrCell (degree prof),
           StrCell (country_display prof), StrCell (city prof), StrCell (affiliation prof),
           StrCell (role prof),
           StrCell (email (sort_key u_pk (filter (is_author conf) (users d)) ! i))])"
proof -
  from get_authors_csv_cells[where is_author = is_author and now = now and rq = request, OF assms]
  obtain rs where resp: "get_authors_csv is_author now d request pk =
           Inr \<lparr> content_type = ''text/csv'',
                 content_disposition = attachment ''authors'' (strftime now ''%Y%m%d_%H%M''),
                 rows = authors_header # rs \<rparr>"
    and len: "length rs = length (filter (is_author conf) (users d))"
    and each: "\<forall>i<length rs. \<exists>prof.
            user_profile d (sort_key u_pk (filter (is_author conf) (users d)) ! i) = Inr prof \<and>
            rs ! i =
              [IntCell (1 + int i),
               IntCell (u_pk (sort_key u_pk (filter (is_author conf) (users d)) ! i)),
               StrCell (full_name prof), StrCell (full_name_rus prof), StrCell (degree prof),
               StrCell (country_display prof), StrCell (city prof), StrCell (affiliation prof),
               StrCell (role prof),
               StrCell (email (sort_key u_pk (filter (is_author conf) (users d)) ! i))]"
    by blast
  show ?thesis
    unfolding resp using len each by simp
qed

theorem get_authors_csv_rows_witness:
  "get_object_or_404 demo_db 1 = Inr demo_conf \<and>
   list_all (has_profile demo_db) (filter (has_authorship demo_db demo_conf) (users demo_db)) \<and>
   (\<exists>resp. get_authors_csv (has_authorship demo_db) demo_now demo_db demo_request 1 = Inr resp \<and>
      hd (rows resp) = authors_header \<and>
      length (tl (rows resp)) = 2 \<and>
      rows resp ! 1 =
        [IntCell 1, IntCell 1, StrCell ''Ann Lee'', StrCell ''Lee Ann'', StrCell ''PhD'',
         StrCell ''Russia'', StrCell ''Moscow'', StrCell ''ICS'', StrCell ''Researcher'',
         StrCell ''ann@example.org''] \<and>
      rows resp ! 2 =
        [IntCell 2, IntCell 2, StrCell ''Bob Ray'', StrCell ''Ray Bob'', StrCell ''PhD'',
         StrCell ''Russia'', StrCell ''Moscow'', StrCell ''ICS'', StrCell ''Researcher'',
         StrCell ''bob@example.org''])"
proof -
  let ?us = "filter (has_authorship demo_db demo_conf) (users demo_db)"
  from get_authors_csv_rows[where is_author = "has_authorship demo_db" and now = demo_now
      and request = demo_request, OF demo_conf_found demo_authors_profiled]
  obtain resp where r: "get_authors_csv (has_authorship demo_db) demo_now demo_db demo_request 1 = Inr resp"
    and h: "hd (rows resp) = authors_header"
    and l: "length (tl (rows resp)) = length ?us"
    and c: "\<forall>i<length ?us. \<exists>prof.
        user_profile demo_db (sort_key u_pk ?us ! i) = Inr prof \<and>
        rows resp ! (i + 1) =
          [IntCell (1 + int i), IntCell (u_pk (sort_key u_pk ?us ! i)),
           StrCell (full_name prof), StrCell (full_name_rus prof), StrCell (degree prof),
           StrCell (country_display prof), StrCell (city prof), StrCell (affiliation prof),
           StrCell (role prof), StrCell (email (sort_key u_pk ?us ! i))]"
    by blast
  have s: "sort_key u_pk [demo_user 2 ''bob@example.org'', demo_user 1 ''ann@example.org''] =
      [demo_user 1 ''ann@example.org'', demo_user 2 ''bob@example.org'']"
    by (simp add: demo_user_def)
  have p1: "user_profile demo_db (demo_user 1 ''ann@example.org'') = Inr (demo_profile 1 ''Ann'' ''Lee'' ''Russia'')"
    and p2: "user_profile demo_db (demo_user 2 ''bob@example.org'') = Inr (demo_profile 2 ''Bob'' ''Ray'' ''Russia'')"
    by (simp_all add: user_profile_def demo_db_def demo_user_def demo_profile_def)
  from c[rule_format, of 0] have r1: "rows resp ! 1 =
        [IntCell 1, IntCell 1, StrCell ''Ann Lee'', StrCell ''Lee Ann'', StrCell ''PhD'',
         StrCell ''Russia'', StrCell ''Moscow'', StrCell ''ICS'', StrCell ''Researcher'',
         StrCell ''ann@example.org'']"
    unfolding demo_authors s by (auto simp: p1) (simp_all add: demo_profile_def demo_user_def)
  from c[rule_format, of 1] have r2: "rows resp ! 2 =
        [IntCell 2, IntCell 2, StrCell ''Bob Ray'', StrCell ''Ray Bob'', StrCell ''PhD'',
         StrCell ''Russia'', StrCell ''Moscow'', StrCell ''ICS'', StrCell ''Researcher'',
         StrCell ''bob@example.org'']"
    unfolding demo_authors s by (auto simp: p2 numeral_2_eq_2) (simp_all add: demo_profile_def demo_user_def)
  from l have l2: "length (tl (rows resp)) = 2" unfolding demo_authors by simp
  from r h l2 r1 r2 demo_conf_found demo_authors_profiled show ?thesis by blast
qed

text \<open>
  C6, as the code has it. Whether a user with no profile row is taken into the authors
  export is decided by \<^verbatim>\<open>is_author\<close> alone. When every user taken has a profile, the
  export returns with one row per user taken, and users with no profile that
  \<^verbatim>\<open>is_author\<close> leaves out change nothing. When a user taken has no profile,
  \<^verbatim>\<open>get_authors_csv\<close> raises \<^verbatim>\<open>RelatedObjectDoesNotExist\<close> at \<^verbatim>\<open>user.profile\<close> and
  returns no response.
\<close>

theorem get_authors_csv_profiles:
  assumes "get_object_or_404 d pk = Inr conf"
  shows "if list_all (has_profile d) (filter (is_author conf) (users d))
         then \<exists>resp. get_authors_csv is_author now d request pk = Inr resp \<and>
                length (rows resp) = length (filter (is_author conf) (users d)) + 1
         else get_authors_csv is_author now d request pk = Inl RelatedObjectDoesNotExist"
proof (cases "list_all (has_profile d) (filter (is_author conf) (users d))")
  case True
  from get_authors_csv_cells[where is_author = is_author and now = now and rq = request,
      OF assms True]
  show ?thesis using True by auto
next
  case False
  from get_authors_csv_raises[where is_author = is_author and now = now and rq = request,
      OF assms False]
  show ?thesis using False by simp
qed

theorem get_authors_csv_profiles_witness:
  "get_object_or_404 orphan_db 1 = Inr demo_conf \<and>
   \<not> has_profile orphan_db (demo_user 4 ''dan@example.org'') \<and>
   filter (has_authorship demo_db demo_conf) (users orphan_db) =
     [demo_user 2 ''bob@example.org'', demo_user 1 ''ann@example.org''] \<and>
   (\<exists>resp. get_authors_csv (has_authorship demo_db) demo_now orphan_db demo_request 1 = Inr resp \<and>
      length (rows resp) = 3) \<and>
   filter (has_authorship orphan_db demo_conf) (users orphan_db) =
     [demo_user 2 ''bob@example.org'', demo_user 1 ''ann@example.org'',
      demo_user 4 ''dan@example.org''] \<and>
   get_authors_csv (has_authorship orphan_db) demo_now orphan_db demo_request 1 =
     Inl RelatedObjectDoesNotExist"
proof -
  have np: "\<not> has_profile orphan_db (demo_user 4 ''dan@example.org'')"
    by (simp add: has_profile_def user_profile_def orphan_defs)
  have f1: "filter (has_authorship demo_db demo_conf) (users orphan_db) =
     [demo_user 2 ''bob@example.org'', demo_user 1 ''ann@example.org'']"
    by (simp add: has_authorship_def authorship_in_conference_def orphan_defs)
  have f2: "filter (has_authorship orphan_db demo_conf) (users orphan_db) =
     [demo_user 2 ''bob@example.org'', demo_user 1 ''ann@example.org'',
      demo_user 4 ''dan@example.org'']"
    by (simp add: has_authorship_def authorship_in_conference_def orphan_defs)
  have a1: "list_all (has_profile orphan_db) (filter (has_authorship demo_db demo_conf) (users orphan_db))"
    unfolding f1 by (simp add: has_profile_def user_profile_def orphan_defs)
  have a2: "\<not> list_all (has_profile orphan_db) (filter (has_authorship orphan_db demo_conf) (users orphan_db))"
    unfolding f2 using np by simp
  from get_authors_csv_profiles[where is_author = "has_authorship demo_db" and now = demo_now
      and request = demo_request, OF orphan_conf_found] a1
  have r1: "\<exists>resp. get_authors_csv (has_authorship demo_db) demo_now orphan_db demo_request 1 = Inr resp \<and>
      length (rows resp) = 3"
    unfolding f1 by (auto simp: numeral_3_eq_3)
  from get_authors_csv_profiles[where is_author = "has_authorship orphan_db"
      and now = demo_now and request = demo_request, OF orphan_conf_found] a2
  have r2: "get_authors_csv (has_authorship orphan_db) demo_now orphan_db demo_request 1 =
     Inl RelatedObjectDoesNotExist"
    by simp
  from orphan_conf_found np f1 r1 f2 r2 show ?thesis by blast
qed

text \<open>
  The claim as the specification states it, that the export does not raise for an author
  with no profile, fails: user 4 of \<open>orphan_db\<close> is an author of submission 3 and has no
  profile row.
\<close>

theorem get_authors_csv_orphan_counterexample:
  "user_profile orphan_db (demo_user 4 ''dan@example.org'') = Inl RelatedObjectDoesNotExist \<and>
   has_authorship orphan_db demo_conf (demo_user 4 ''dan@example.org'') \<and>
   get_authors_csv (has_authorship orphan_db) demo_now orphan_db demo_request 1 =
     Inl RelatedObjectDoesNotExist"
  by (simp add: get_authors_csv_def get_object_or_404_def author_row_def user_profile_def
      has_authorship_def authorship_in_conference_def orphan_defs)

subsection \<open>Headers of the exports\<close>

text \<open>
  C9. Every response of \<^verbatim>\<open>get_submissions_csv\<close> and of \<^verbatim>\<open>get_authors_csv\<close> has the
  content type \<^verbatim>\<open>text/csv\<close> and a \<^verbatim>\<open>Content-Disposition\<close> of an attachment whose file
  name is \<^verbatim>\<open>submissions-\<close> or \<^verbatim>\<open>authors-\<close>, the timestamp and \<^verbatim>\<open>.csv\<close>. The timestamp
  is made from the time read during the call: year, month, day, an underscore, hour and
  minute, zero-padded, thirteen characters of the shape \<^verbatim>\<open>YYYYMMDD_HHMM\<close>. Both views
  return a response when the conference exists and the rows they read can be read.
\<close>

theorem csv_attachment_headers:
  assumes "valid_datetime now"
  shows "(\<forall>resp. get_submissions_csv set_iter urls now d request pk = Inr resp \<longrightarrow>
            content_type resp = ''text/csv'' \<and>
            content_disposition resp =
              ''attachment; filename='' @ [CHR 0x22] @ ''submissions-'' @
              strftime now ''%Y%m%d_%H%M'' @ ''.csv'' @ [CHR 0x22]) \<and>
         (\<forall>resp. get_authors_csv is_author now d request pk = Inr resp \<longrightarrow>
            content_type resp = ''text/csv'' \<and>
            content_disposition resp =
              ''attachment; filename='' @ [CHR 0x22] @ ''authors-'' @
              strftime now ''%Y%m%d_%H%M'' @ ''.csv'' @ [CHR 0x22]) \<and>
         (\<forall>conf. get_object_or_404 d pk = Inr conf \<longrightarrow>
            (list_all (exportable d) (submission_set d conf) \<longrightarrow>
               (\<exists>resp. get_submissions_csv set_iter urls now d request pk = Inr resp)) \<and>
            (list_all (has_profile d) (filter (is_author conf) (users d)) \<longrightarrow>
               (\<exists>resp. get_authors_csv is_author now d request pk = Inr resp))) \<and>
         strftime now ''%Y%m%d_%H%M'' =
           zero_pad 4 (year now) @ zero_pad 2 (month now) @ zero_pad 2 (day now) @ ''_'' @
           zero_pad 2 (hour now) @ zero_pad 2 (minute now) \<and>
         timestamp_form (strftime now ''%Y%m%d_%H%M'')"
proof -
  have s: "\<forall>resp. get_submissions_csv set_iter urls now d request pk = Inr resp \<longrightarrow>
            content_type resp = ''text/csv'' \<and>
            content_disposition resp =
              ''attachment; filename='' @ [CHR 0x22] @ ''submissions-'' @
              strftime now ''%Y%m%d_%H%M'' @ ''.csv'' @ [CHR 0x22]"
    using get_submissions_csv_headers[of set_iter urls now d request pk]
    by (simp add: attachment_def)
  have a: "\<forall>resp. get_authors_csv is_author now d request pk = Inr resp \<longrightarrow>
            content_type resp = ''text/csv'' \<and>
            content_disposition resp =
              ''attachment; filename='' @ [CHR 0x22] @ ''authors-'' @
              strftime now ''%Y%m%d_%H%M'' @ ''.csv'' @ [CHR 0x22]"
    using get_authors_csv_headers[of is_author now d request pk]
    by (simp add: attachment_def)
  have e: "\<forall>conf. get_object_or_404 d pk = Inr conf \<longrightarrow>
            (list_all (exportable d) (submission_set d conf) \<longrightarrow>
               (\<exists>resp. get_submissions_csv set_iter urls now d request pk = Inr resp)) \<and>
            (list_all (has_profile d) (filter (is_author conf) (users d)) \<longrightarrow>
               (\<exists>resp. get_authors_csv is_author now d request pk = Inr resp))"
  proof (intro allI impI conjI)
    fix conf assume c: "get_object_or_404 d pk = Inr conf"
    { assume "list_all (exportable d) (submission_set d conf)"
      from get_submissions_csv_exportable[OF c this, of set_iter urls now request]
      show "\<exists>resp. get_submissions_csv set_iter urls now d request pk = Inr resp" by blast }
    { assume "list_all (has_profile d) (filter (is_author conf) (users d))"
      from get_authors_csv_cells[where is_author = is_author and now = now and rq = request,
          OF c this]
      show "\<exists>resp. get_authors_csv is_author now d request pk = Inr resp" by blast }
  qed
  from s a e strftime_stamp[of now] stamp_form[OF assms] show ?thesis by blast
qed

theorem csv_attachment_headers_witness:
  "valid_datetime demo_now \<and>
   (\<exists>resp. get_submissions_csv remdups demo_urls demo_now demo_db demo_request 1 = Inr resp \<and>
      content_type resp = ''text/csv'' \<and>
      content_disposition resp =
        ''attachment; filename='' @ [CHR 0x22] @ ''submissions-20190307_0905.csv'' @ [CHR 0x22]) \<and>
   (\<exists>resp. get_authors_csv (has_authorship demo_db) demo_now demo_db demo_request 1 = Inr resp \<and>
      content_type resp = ''text/csv'' \<and>
      content_disposition resp =
        ''attachment; filename='' @ [CHR 0x22] @ ''authors-20190307_0905.csv'' @ [CHR 0x22]) \<and>
   timestamp_form ''20190307_0905''"
proof -
  note t = csv_attachment_headers[where now = demo_now and set_iter = remdups and urls = demo_urls
      and d = demo_db and request = demo_request and pk = 1
      and is_author = "has_authorship demo_db", OF demo_now_valid, unfolded demo_stamp]
  from t demo_conf_found demo_exportable
  obtain r1 where r1: "get_submissions_csv remdups demo_urls demo_now demo_db demo_request 1 = Inr r1"
    by blast
  from t demo_conf_found demo_authors_profiled
  obtain r2 where r2: "get_authors_csv (has_authorship demo_db) demo_now demo_db demo_request 1 = Inr r2"
    by blast
  from t r1 have "content_type r1 = ''text/csv'' \<and>
      content_disposition r1 =
        ''attachment; filename='' @ [CHR 0x22] @ ''submissions-20190307_0905.csv'' @ [CHR 0x22]"
    by simp
  moreover from t r2 have "content_type r2 = ''text/csv'' \<and>
      content_disposition r2 =
        ''attachment; filename='' @ [CHR 0x22] @ ''authors-20190307_0905.csv'' @ [CHR 0x22]"
    by simp
  moreover from t have "timestamp_form ''20190307_0905''" by blast
  ultimately show ?thesis using r1 r2 demo_now_valid by blast
qed

subsection \<open>Listings\<close>

text \<open>
  C3. For every user item that \<^verbatim>\<open>users_list\<close> shapes for a conference, whatever the
  filter, \<open>is_participant\<close> is true exactly when the user has at least one authorship
  row whose submission belongs to the conference, and \<open>num_submissions\<close> is the number
  of such rows. Primary keys of submissions and authorship rows are unique. The view
  returns when the conference exists and the listed users have profiles.
\<close>

theorem users_list_participation:
  assumes "get_object_or_404 d pk = Inr conf"
    and "distinct (map s_pk (submissions d))"
    and "distinct (map a_pk (authorships d))"
  shows "(list_all (has_profile d) (apply_filter (F (GET request) conf) (users d)) \<longrightarrow>
            (\<exists>ctx. users_list F d request pk = Inr ctx)) \<and>
         (\<forall>ctx. users_list F d request pk = Inr ctx \<longrightarrow>
            (\<forall>item\<in>set (uc_users ctx).
               is_participant item =
                 (\<exists>a\<in>set (authorships d). scoped_authorship d conf (ui_pk item) a) \<and>
               num_submissions item =
                 int (card {a \<in> set (authorships d). scoped_authorship d conf (ui_pk item) a})))"
proof (intro conjI impI allI ballI)
  assume "list_all (has_profile d) (apply_filter (F (GET request) conf) (users d))"
  with assms(1) show "\<exists>ctx. users_list F d request pk = Inr ctx"
    by (rule users_list_total)
next
  fix ctx item
  assume ctx: "users_list F d request pk = Inr ctx" and item: "item \<in> set (uc_users ctx)"
  from users_list_items[OF assms(1) ctx item]
  obtain u where pk: "ui_pk item = u_pk u"
    and n: "num_submissions item = int (length (authorship_in_conference d conf u))"
    and p: "is_participant item = (authorship_in_conference d conf u \<noteq> [])"
    by blast
  note f = authorship_in_conference_scoped[OF assms(2), of conf u]
  from assms(3) have dist: "distinct (authorships d)" by (rule distinct_map[THEN iffD1, THEN conjunct1])
  have set_eq: "{a \<in> set (authorships d). scoped_authorship d conf (ui_pk item) a} =
      {a. scoped_authorship d conf (u_pk u) a} \<inter> set (authorships d)"
    using pk by auto
  show "is_participant item = (\<exists>a\<in>set (authorships d). scoped_authorship d conf (ui_pk item) a)"
    unfolding p f pk by (auto simp: filter_empty_conv)
  show "num_submissions item =
      int (card {a \<in> set (authorships d). scoped_authorship d conf (ui_pk item) a})"
    unfolding n f set_eq by (simp add: distinct_length_filter[OF dist])
qed

theorem users_list_participation_witness:
  "get_object_or_404 demo_db 1 = Inr demo_conf \<and>
   distinct (map s_pk (submissions demo_db)) \<and>
   distinct (map a_pk (authorships demo_db)) \<and>
   list_all (has_profile demo_db)
     (apply_filter (filter_form demo_interp (GET demo_request) demo_conf) (users demo_db)) \<and>
   (\<exists>ctx. users_list (filter_form demo_interp) demo_db demo_request 1 = Inr ctx \<and>
      map ui_pk (uc_users ctx) = [2, 1, 3] \<and>
      map num_submissions (uc_users ctx) = [1, 2, 0] \<and>
      map is_participant (uc_users ctx) = [True, True, False]) \<and>
   card {a \<in> set (authorships demo_db). scoped_authorship demo_db demo_conf 1 a} = 2 \<and>
   \<not> (\<exists>a\<in>set (authorships demo_db). scoped_authorship demo_db demo_conf 3 a)"
proof -
  from demo_users_list obtain ctx
    where ctx: "users_list (filter_form demo_interp) demo_db demo_request 1 = Inr ctx"
      and pks: "map ui_pk (uc_users ctx) = [2, 1, 3]"
      and nums: "map num_submissions (uc_users ctx) = [1, 2, 0]"
      and parts: "map is_participant (uc_users ctx) = [True, True, False]"
    by (elim exE conjE)
  from pks obtain i2 i1 i3 where items: "uc_users ctx = [i2, i1, i3]" by auto
  from users_list_participation[where F = "filter_form demo_interp" and request = demo_request,
      OF demo_conf_found demo_keys(1,2)] ctx
  have each: "\<forall>item\<in>set (uc_users ctx).
      is_participant item =
        (\<exists>a\<in>set (authorships demo_db). scoped_authorship demo_db demo_conf (ui_pk item) a) \<and>
      num_submissions item =
        int (card {a \<in> set (authorships demo_db). scoped_authorship demo_db demo_conf (ui_pk item) a})"
    by blast
  from each items pks nums
  have c: "card {a \<in> set (authorships demo_db). scoped_authorship demo_db demo_conf 1 a} = 2"
    by simp
  from each items pks parts
  have n: "\<not> (\<exists>a\<in>set (authorships demo_db). scoped_authorship demo_db demo_conf 3 a)"
    by simp
  have p: "list_all (has_profile demo_db)
     (apply_filter (filter_form demo_interp (GET demo_request) demo_conf) (users demo_db))"
    unfolding demo_unfiltered by (rule demo_users_profiled)
  from demo_conf_found demo_keys(1,2) p ctx pks nums parts c n show ?thesis
    by - (intro conjI exI[of _ ctx]; assumption)
qed

text \<open>
  C2. When the filter specification is invalid, for any form class, or empty, for the
  form classes as the specification describes them, the listings use the full unfiltered
  record set and raise nothing: \<^verbatim>\<open>submissions_list\<close> returns the shaped submissions of
  the conference, as many as the conference has, and \<^verbatim>\<open>users_list\<close> returns as many
  items as there are users. The conference exists; for \<^verbatim>\<open>users_list\<close>, which reads
  \<^verbatim>\<open>user.profile\<close> of every listed user, the users have profiles and unique keys.
\<close>

theorem listings_unfiltered:
  assumes "get_object_or_404 d pk = Inr conf"
    and "\<not> is_valid (Fs (GET request) conf) \<or> (GET request = [] \<and> Fs = filter_form interp_s)"
    and "\<not> is_valid (Fu (GET request) conf) \<or> (GET request = [] \<and> Fu = filter_form interp_u)"
    and "list_all (has_profile d) (users d)"
    and "distinct (map u_pk (users d))"
  shows "(\<exists>ctx. submissions_list Fs d request pk = Inr ctx \<and>
            sc_submissions ctx = map (submission_shape d) (submission_set d conf) \<and>
            length (sc_submissions ctx) = length (submission_set d conf)) \<and>
         (\<exists>ctx. users_list Fu d request pk = Inr ctx \<and>
            length (uc_users ctx) = length (users d))"
proof
  from assms(1) apply_filter_ignored[OF assms(2), of "submission_set d conf"]
  show "\<exists>ctx. submissions_list Fs d request pk = Inr ctx \<and>
            sc_submissions ctx = map (submission_shape d) (submission_set d conf) \<and>
            length (sc_submissions ctx) = length (submission_set d conf)"
    by (simp add: submissions_list_def Let_def)
next
  note same = apply_filter_ignored[OF assms(3), of "users d"]
  from users_list_distinct[where F = Fu and request = request, OF assms(1)] assms(4,5)
  obtain ctx where "users_list Fu d request pk = Inr ctx"
    and "map ui_pk (uc_users ctx) = map u_pk (users d)"
    unfolding same by blast
  then show "\<exists>ctx. users_list Fu d request pk = Inr ctx \<and>
            length (uc_users ctx) = length (users d)"
    by (metis length_map)
qed

theorem listings_unfiltered_witness:
  "get_object_or_404 demo_db 1 = Inr demo_conf \<and>
   list_all (has_profile demo_db) (users demo_db) \<and>
   distinct (map u_pk (users demo_db)) \<and>
   GET demo_request = [] \<and>
   (\<exists>ctx. submissions_list (filter_form demo_interp_sub) demo_db demo_request 1 = Inr ctx \<and>
      length (sc_submissions ctx) = 2) \<and>
   (\<exists>ctx. users_list (filter_form demo_interp) demo_db demo_request 1 = Inr ctx \<and>
      length (uc_users ctx) = 3) \<and>
   \<not> is_valid (filter_form demo_interp_sub (GET bad_request) demo_conf) \<and>
   \<not> is_valid (filter_form demo_interp (GET bad_request) demo_conf) \<and>
   (\<exists>ctx. submissions_list (filter_form demo_interp_sub) demo_db bad_request 1 = Inr ctx \<and>
      length (sc_submissions ctx) = 2) \<and>
   (\<exists>ctx. users_list (filter_form demo_interp) demo_db bad_request 1 = Inr ctx \<and>
      length (uc_users ctx) = 3)"
proof -
  have e: "GET demo_request = []" by (simp add: demo_request_def)
  have b1: "\<not> is_valid (filter_form demo_interp_sub (GET bad_request) demo_conf)"
    and b2: "\<not> is_valid (filter_form demo_interp (GET bad_request) demo_conf)"
    by (simp_all add: filter_form_def bad_request_def demo_interp_sub_def demo_interp_def)
  have n: "length (submission_set demo_db demo_conf) = 2" "length (users demo_db) = 3"
    by (simp_all add: submission_set_def demo_defs)
  from listings_unfiltered[where Fs = "filter_form demo_interp_sub" and Fu = "filter_form demo_interp"
      and request = demo_request and interp_s = demo_interp_sub and interp_u = demo_interp,
      OF demo_conf_found _ _ demo_users_profiled demo_keys(3)] e
  have r1: "(\<exists>ctx. submissions_list (filter_form demo_interp_sub) demo_db demo_request 1 = Inr ctx \<and>
      length (sc_submissions ctx) = 2) \<and>
   (\<exists>ctx. users_list (filter_form demo_interp) demo_db demo_request 1 = Inr ctx \<and>
      length (uc_users ctx) = 3)"
    unfolding n by auto
  from listings_unfiltered[where Fs = "filter_form demo_interp_sub" and Fu = "filter_form demo_interp"
      and request = bad_request and interp_s = demo_interp_sub and interp_u = demo_interp,
      OF demo_conf_found _ _ demo_users_profiled demo_keys(3)] b1 b2
  have r2: "(\<exists>ctx. submissions_list (filter_form demo_interp_sub) demo_db bad_request 1 = Inr ctx \<and>
      length (sc_submissions ctx) = 2) \<and>
   (\<exists>ctx. users_list (filter_form demo_interp) demo_db bad_request 1 = Inr ctx \<and>
      length (uc_users ctx) = 3)"
    unfolding n by auto
  from demo_conf_found demo_users_profiled demo_keys(3) e r1 b1 b2 r2 show ?thesis
    by - (intro conjI; (assumption | (elim conjE, assumption)))
qed

text \<open>
  C10. When the filter specification is invalid, or absent (an empty query, for a form
  class as the specification describes it), \<^verbatim>\<open>users_list\<close> lists every user of the
  system, in the order of the users table: also a user with no authorship row at all, who
  is listed as no participant with zero submissions.
\<close>

theorem users_list_every_user:
  assumes "get_object_or_404 d pk = Inr conf"
    and "\<not> is_valid (F (GET request) conf) \<or> (GET request = [] \<and> F = filter_form interp)"
    and "list_all (has_profile d) (users d)"
    and "distinct (map u_pk (users d))"
  shows "\<exists>ctx. users_list F d request pk = Inr ctx \<and>
           map ui_pk (uc_users ctx) = map u_pk (users d) \<and>
           (\<forall>u\<in>set (users d). (\<forall>a\<in>set (authorships d). a_user a \<noteq> u_pk u) \<longrightarrow>
              (\<exists>item\<in>set (uc_users ctx).
                 ui_pk item = u_pk u \<and> \<not> is_participant item \<and> num_submissions item = 0))"
proof -
  note same = apply_filter_ignored[OF assms(2), of "users d"]
  from users_list_distinct[where F = F and request = request, OF assms(1)] assms(3,4)
  obtain ctx where ctx: "users_list F d request pk = Inr ctx"
    and pks: "map ui_pk (uc_users ctx) = map u_pk (users d)"
    unfolding same by blast
  have "\<exists>item\<in>set (uc_users ctx).
          ui_pk item = u_pk u \<and> \<not> is_participant item \<and> num_submissions item = 0"
    if u: "u \<in> set (users d)" and none: "\<forall>a\<in>set (authorships d). a_user a \<noteq> u_pk u" for u
  proof -
    from u have "u_pk u \<in> set (map ui_pk (uc_users ctx))" unfolding pks by simp
    then obtain item where item: "item \<in> set (uc_users ctx)" "ui_pk item = u_pk u" by auto
    from users_list_items[OF assms(1) ctx item(1)]
    obtain u' where u': "ui_pk item = u_pk u'"
      "num_submissions item = int (length (authorship_in_conference d conf u'))"
      "is_participant item = (authorship_in_conference d conf u' \<noteq> [])"
      by blast
    from none item(2) u'(1) have "authorship_in_conference d conf u' = []"
      by (simp add: authorship_in_conference_def filter_empty_conv)
    with item u' show ?thesis by auto
  qed
  with ctx pks show ?thesis by blast
qed

theorem users_list_every_user_witness:
  "get_object_or_404 demo_db 1 = Inr demo_conf \<and>
   list_all (has_profile demo_db) (users demo_db) \<and>
   distinct (map u_pk (users demo_db)) \<and>
   GET demo_request = [] \<and>
   demo_user 3 ''eve@example.org'' \<in> set (users demo_db) \<and>
   \<not> (\<exists>a\<in>set (authorships demo_db). a_user a = 3) \<and>
   (\<exists>ctx. users_list (filter_form demo_interp) demo_db demo_request 1 = Inr ctx \<and>
      map ui_pk (uc_users ctx) = [2, 1, 3] \<and>
      (\<exists>item\<in>set (uc_users ctx).
         ui_pk item = 3 \<and> \<not> is_participant item \<and> num_submissions item = 0)) \<and>
   \<not> is_valid (filter_form demo_interp (GET bad_request) demo_conf) \<and>
   (\<exists>ctx. users_list (filter_form demo_interp) demo_db bad_request 1 = Inr ctx \<and>
      map ui_pk (uc_users ctx) = [2, 1, 3])"
proof -
  have e: "GET demo_request = []" by (simp add: demo_request_def)
  have b: "\<not> is_valid (filter_form demo_interp (GET bad_request) demo_conf)"
    by (simp add: filter_form_def bad_request_def demo_interp_def)
  have u3: "demo_user 3 ''eve@example.org'' \<in> set (users demo_db)"
    by (simp add: demo_db_def)
  have none: "\<not> (\<exists>a\<in>set (authorships demo_db). a_user a = 3)"
    by (simp add: demo_db_def)
  have pks: "map u_pk (users demo_db) = [2, 1, 3]"
    by (simp add: demo_db_def demo_user_def)
  from users_list_every_user[where F = "filter_form demo_interp" and request = demo_request
      and interp = demo_interp, OF demo_conf_found _ demo_users_profiled demo_keys(3)] e
  obtain ctx where ctx: "users_list (filter_form demo_interp) demo_db demo_request 1 = Inr ctx"
    and all: "map ui_pk (uc_users ctx) = [2, 1, 3]"
    and each: "\<forall>u\<in>set (users demo_db). (\<forall>a\<in>set (authorships demo_db). a_user a \<noteq> u_pk u) \<longrightarrow>
              (\<exists>item\<in>set (uc_users ctx).
                 ui_pk item = u_pk u \<and> \<not> is_participant item \<and> num_submissions item = 0)"
    unfolding pks by auto
  from each[rule_format, OF u3] none
  have item: "\<exists>item\<in>set (uc_users ctx).
         ui_pk item = 3 \<and> \<not> is_participant item \<and> num_submissions item = 0"
    by (simp add: demo_user_def)
  from ctx all item
  have r1: "\<exists>ctx. users_list (filter_form demo_interp) demo_db demo_request 1 = Inr ctx \<and>
      map ui_pk (uc_users ctx) = [2, 1, 3] \<and>
      (\<exists>item\<in>set (uc_users ctx).
         ui_pk item = 3 \<and> \<not> is_participant item \<and> num_submissions item = 0)"
    by (intro exI[of _ ctx] conjI)
  from users_list_every_user[where F = "filter_form demo_interp" and request = bad_request
      and interp = demo_interp, OF demo_conf_found _ demo_users_profiled demo_keys(3)] b
  have r2: "\<exists>ctx. users_list (filter_form demo_interp) demo_db bad_request 1 = Inr ctx \<and>
      map ui_pk (uc_users ctx) = [2, 1, 3]"
    unfolding pks by auto
  from demo_conf_found demo_users_profiled demo_keys(3) e u3 none r1 b r2 show ?thesis
    by - (intro conjI; assumption)
qed

end
